theory Spec2Isabelle
  imports Main "HOL-Library.Word" "HOL-Library.AList"
begin

unbundle bit_operations_syntax

section \<open>JavaScript values\<close>

text \<open>
  A JavaScript string is represented by the list of its UTF-8 bytes (an Isabelle
  \<^typ>\<open>char\<close> is one byte). For well-formed strings this representation is one-to-one, the
  empty string is the only falsy string, and the bytes are what
  \<^verbatim>\<open>crypto.createHash('md5').update(userId)\<close> feeds to the digest.
\<close>

type_synonym byte = "8 word"
type_synonym u32 = "32 word"

definition utf8_bytes :: "string \<Rightarrow> byte list" where
  "utf8_bytes s = map of_char s"

text \<open>
  A value that is a string, \<^verbatim>\<open>undefined\<close> or \<^verbatim>\<open>null\<close> is a \<^typ>\<open>string option\<close>.
  \<open>truthy\<close> is the test that \<^verbatim>\<open>if (x)\<close> and \<^verbatim>\<open>!x\<close> perform on it.
\<close>

definition truthy :: "string option \<Rightarrow> bool" where
  "truthy x = (case x of None \<Rightarrow> False | Some s \<Rightarrow> s \<noteq> [])"

text \<open>The property key that a non-negative integer index is converted to: its decimal digits.\<close>

definition dec_digit :: "nat \<Rightarrow> char" where
  "dec_digit n = ''0123456789'' ! n"

fun String_nat :: "nat \<Rightarrow> string" where
  "String_nat n =
     (if n < 10 then [dec_digit n] else String_nat (n div 10) @ [dec_digit (n mod 10)])"

declare String_nat.simps [simp del]

text \<open>
  The remainder operator of JavaScript on integer-valued numbers: \<^verbatim>\<open>NaN\<close> (here \<open>None\<close>)
  for a zero divisor, otherwise the remainder of the magnitudes with the sign of the dividend.
\<close>

definition js_rem :: "int \<Rightarrow> int \<Rightarrow> int option" where
  "js_rem a b = (if b = 0 then None else Some (sgn a * (\<bar>a\<bar> mod \<bar>b\<bar>)))"

text \<open>Bodies of HTTP responses and WebSocket frames.\<close>

datatype json =
  JNull | JNum int | JStr string | JArr "json list" | JObj "(string \<times> json) list"

section \<open>MD5 (RFC 1321), as computed by \<^verbatim>\<open>crypto.createHash('md5')\<close>\<close>

definition md5_K :: "u32 list" where
  "md5_K =
    [0xd76aa478, 0xe8c7b756, 0x242070db, 0xc1bdceee,
     0xf57c0faf, 0x4787c62a, 0xa8304613, 0xfd469501,
     0x698098d8, 0x8b44f7af, 0xffff5bb1, 0x895cd7be,
     0x6b901122, 0xfd987193, 0xa679438e, 0x49b40821,
     0xf61e2562, 0xc040b340, 0x265e5a51, 0xe9b6c7aa,
     0xd62f105d, 0x02441453, 0xd8a1e681, 0xe7d3fbc8,
     0x21e1cde6, 0xc33707d6, 0xf4d50d87, 0x455a14ed,
     0xa9e3e905, 0xfcefa3f8, 0x676f02d9, 0x8d2a4c8a,
     0xfffa3942, 0x8771f681, 0x6d9d6122, 0xfde5380c,
     0xa4beea44, 0x4bdecfa9, 0xf6bb4b60, 0xbebfbc70,
     0x289b7ec6, 0xeaa127fa, 0xd4ef3085, 0x04881d05,
     0xd9d4d039, 0xe6db99e5, 0x1fa27cf8, 0xc4ac5665,
     0xf4292244, 0x432aff97, 0xab9423a7, 0xfc93a039,
     0x655b59c3, 0x8f0ccc92, 0xffeff47d, 0x85845dd1,
     0x6fa87e4f, 0xfe2ce6e0, 0xa3014314, 0x4e0811a1,
     0xf7537e82, 0xbd3af235, 0x2ad7d2bb, 0xeb86d391]"

definition md5_s :: "nat list" where
  "md5_s =
    [7, 12, 17, 22, 7, 12, 17, 22, 7, 12, 17, 22, 7, 12, 17, 22,
     5, 9, 14, 20, 5, 9, 14, 20, 5, 9, 14, 20, 5, 9, 14, 20,
     4, 11, 16, 23, 4, 11, 16, 23, 4, 11, 16, 23, 4, 11, 16, 23,
     6, 10, 15, 21, 6, 10, 15, 21, 6, 10, 15, 21, 6, 10, 15, 21]"

definition rotl32 :: "u32 \<Rightarrow> nat \<Rightarrow> u32" where
  "rotl32 x n = push_bit n x OR drop_bit (32 - n) x"

primrec le_bytes :: "nat \<Rightarrow> nat \<Rightarrow> byte list" where
  "le_bytes 0 n = []"
| "le_bytes (Suc k) n = word_of_nat n # le_bytes k (n div 256)"

text \<open>Padding: a 1 bit, zeros up to 56 modulo 64 bytes, then the bit length in 8 bytes.\<close>

definition md5_pad :: "byte list \<Rightarrow> byte list" where
  "md5_pad m = m @ [0x80] @ replicate ((119 - length m mod 64) mod 64) 0
                 @ le_bytes 8 (8 * length m)"

fun le_words :: "byte list \<Rightarrow> u32 list" where
  "le_words (b0 # b1 # b2 # b3 # bs) =
     (ucast b0 OR push_bit 8 (ucast b1) OR push_bit 16 (ucast b2) OR push_bit 24 (ucast b3))
       # le_words bs"
| "le_words _ = []"

type_synonym md5_state = "u32 \<times> u32 \<times> u32 \<times> u32"

definition md5_round :: "u32 list \<Rightarrow> md5_state \<Rightarrow> nat \<Rightarrow> md5_state" where
  "md5_round M st i =
     (case st of (A, B, C, D) \<Rightarrow>
        let (F, g) =
              (if i < 16 then ((B AND C) OR (NOT B AND D), i)
               else if i < 32 then ((D AND B) OR (NOT D AND C), (5 * i + 1) mod 16)
               else if i < 48 then (B XOR C XOR D, (3 * i + 5) mod 16)
               else (C XOR (B OR NOT D), (7 * i) mod 16));
            F' = F + A + md5_K ! i + M ! g
        in (D, B + rotl32 F' (md5_s ! i), B, C))"

definition md5_block :: "md5_state \<Rightarrow> u32 list \<Rightarrow> md5_state" where
  "md5_block h M =
     (case h of (a0, b0, c0, d0) \<Rightarrow>
        case foldl (md5_round M) h [0..<64] of (A, B, C, D) \<Rightarrow>
          (a0 + A, b0 + B, c0 + C, d0 + D))"

fun md5_blocks :: "md5_state \<Rightarrow> u32 list \<Rightarrow> md5_state" where
  "md5_blocks h ws =
     (if length ws < 16 then h else md5_blocks (md5_block h (take 16 ws)) (drop 16 ws))"

declare md5_blocks.simps [simp del]

definition word_le_bytes :: "u32 \<Rightarrow> byte list" where
  "word_le_bytes w = [ucast w, ucast (drop_bit 8 w), ucast (drop_bit 16 w), ucast (drop_bit 24 w)]"

definition md5 :: "byte list \<Rightarrow> byte list" where
  "md5 m =
     (case md5_blocks (0x67452301, 0xefcdab89, 0x98badcfe, 0x10325476) (le_words (md5_pad m)) of
        (a, b, c, d) \<Rightarrow> word_le_bytes a @ word_le_bytes b @ word_le_bytes c @ word_le_bytes d)"

text \<open>\<^verbatim>\<open>digest('hex')\<close>: two lower-case hexadecimal digits per byte.\<close>

definition hex_digit :: "nat \<Rightarrow> char" where
  "hex_digit n = ''0123456789abcdef'' ! n"

definition hex_byte :: "byte \<Rightarrow> string" where
  "hex_byte b = [hex_digit (unat b div 16), hex_digit (unat b mod 16)]"

definition hex_digest :: "byte list \<Rightarrow> string" where
  "hex_digest bs = concat (map hex_byte bs)"

text \<open>\<^verbatim>\<open>s.substring(a, b)\<close> for non-negative indices (the smaller index is the start).\<close>

definition substring :: "string \<Rightarrow> nat \<Rightarrow> nat \<Rightarrow> string" where
  "substring s a b = take (max a b - min a b) (drop (min a b) s)"

text \<open>
  \<^verbatim>\<open>parseInt(s, 16)\<close> on a string without leading white space, sign or \<^verbatim>\<open>0x\<close> prefix: the value
  of the longest prefix of hexadecimal digits, \<^verbatim>\<open>NaN\<close> (here \<open>None\<close>) when that prefix is empty.
\<close>

definition hex_value :: "char \<Rightarrow> nat option" where
  "hex_value c =
     (let n = (of_char c :: nat) in
      if 48 \<le> n \<and> n \<le> 57 then Some (n - 48)
      else if 97 \<le> n \<and> n \<le> 102 then Some (n - 87)
      else if 65 \<le> n \<and> n \<le> 70 then Some (n - 55)
      else None)"

fun parse_hex :: "nat \<Rightarrow> string \<Rightarrow> nat" where
  "parse_hex acc [] = acc"
| "parse_hex acc (c # cs) =
     (case hex_value c of None \<Rightarrow> acc | Some d \<Rightarrow> parse_hex (16 * acc + d) cs)"

definition parseInt16 :: "string \<Rightarrow> nat option" where
  "parseInt16 s =
     (case s of [] \<Rightarrow> None
      | c # _ \<Rightarrow> (case hex_value c of None \<Rightarrow> None | Some _ \<Rightarrow> Some (parse_hex 0 s)))"

section \<open>The hash ring (class ConsistentHash)\<close>

text \<open>
  A JavaScript object with string values, such as \<open>vnodeMap\<close>, is kept as an association list
  with distinct keys. \<^verbatim>\<open>Object.entries\<close> and \<^verbatim>\<open>Object.keys\<close> enumerate the array-index keys (the
  canonical decimal strings below \<open>2^32 - 1\<close>) first, in ascending numeric order, and then the
  other keys in the order of their creation; \<open>js_order\<close> puts a list of entries into this
  order, and every operation that builds or copies an object applies it.
\<close>

type_synonym js_object = "(string \<times> string) list"

definition is_digit :: "char \<Rightarrow> bool" where
  "is_digit c = (48 \<le> (of_char c :: nat) \<and> (of_char c :: nat) \<le> 57)"

definition nat_of_decimal :: "string \<Rightarrow> nat" where
  "nat_of_decimal s = foldl (\<lambda>a c. 10 * a + ((of_char c :: nat) - 48)) 0 s"

definition is_index_key :: "string \<Rightarrow> bool" where
  "is_index_key k =
     (k \<noteq> [] \<and> list_all is_digit k
      \<and> (if hd k = CHR ''0'' then length k = 1 else True)
      \<and> nat_of_decimal k < 4294967295)"

definition js_order :: "js_object \<Rightarrow> js_object" where
  "js_order entries =
     sort_key (\<lambda>(k, v). nat_of_decimal k) (filter (\<lambda>(k, v). is_index_key k) entries)
       @ filter (\<lambda>(k, v). \<not> is_index_key k) entries"

definition js_put :: "string \<Rightarrow> string \<Rightarrow> js_object \<Rightarrow> js_object" where
  \<comment> \<open>the assignment \<^verbatim>\<open>obj[k] = v\<close>\<close>
  "js_put k v obj = js_order (AList.update k v obj)"

record ConsistentHash =
  vnodeCount :: int
  vnodeMap :: js_object

definition getUserVnode :: "ConsistentHash \<Rightarrow> string \<Rightarrow> int option" where
  "getUserVnode ch userId =
     (let hash = hex_digest (md5 (utf8_bytes userId)) in
      case parseInt16 (substring hash 0 8) of
        None \<Rightarrow> None
      | Some n \<Rightarrow> js_rem (int n) (vnodeCount ch))"

text \<open>
  The reference formula of the specification: the first 32 bits of the MD5 digest of the
  UTF-8 bytes of the user id, read as a big-endian number, reduced modulo the vnode count.
\<close>

definition first32 :: "byte list \<Rightarrow> nat" where
  "first32 digest = foldl (\<lambda>acc b. 256 * acc + unat b) 0 (take 4 digest)"

definition userVnode_ref :: "int \<Rightarrow> string \<Rightarrow> int" where
  "userVnode_ref V userId = int (first32 (md5 (utf8_bytes userId))) mod V"

definition js_key :: "int option \<Rightarrow> string" where
  \<comment> \<open>the property key of a number used as an index; \<open>None\<close> is \<^verbatim>\<open>NaN\<close>\<close>
  "js_key v =
     (case v of None \<Rightarrow> ''NaN''
      | Some i \<Rightarrow> if i < 0 then CHR ''-'' # String_nat (nat (- i)) else String_nat (nat i))"

text \<open>\<^verbatim>\<open>Object.assign(target, source)\<close>: the entries of the source are written in order.\<close>

definition Object_assign :: "js_object \<Rightarrow> js_object \<Rightarrow> js_object" where
  "Object_assign target source = fold (\<lambda>(k, v). js_put k v) source (js_order target)"

definition getInstanceForVnode :: "ConsistentHash \<Rightarrow> int option \<Rightarrow> string option" where
  \<comment> \<open>\<^verbatim>\<open>this.vnodeMap[vnodeId] || null\<close>\<close>
  "getInstanceForVnode ch vnodeId =
     (let x = map_of (vnodeMap ch) (js_key vnodeId) in if truthy x then x else None)"

definition setVnodeMapping :: "int option \<Rightarrow> string \<Rightarrow> ConsistentHash \<Rightarrow> ConsistentHash" where
  "setVnodeMapping vnodeId instanceId ch =
     ch\<lparr>vnodeMap := js_put (js_key vnodeId) instanceId (vnodeMap ch)\<rparr>"

definition updateVnodeMappings :: "js_object \<Rightarrow> ConsistentHash \<Rightarrow> ConsistentHash" where
  "updateVnodeMappings vnodeMappings ch =
     ch\<lparr>vnodeMap := Object_assign (vnodeMap ch) vnodeMappings\<rparr>"

definition getVnodeMap :: "ConsistentHash \<Rightarrow> js_object" where
  \<comment> \<open>a copy: \<^verbatim>\<open>{ ...this.vnodeMap }\<close>\<close>
  "getVnodeMap ch = js_order (vnodeMap ch)"

section \<open>The shared directory (class RedisClient)\<close>

text \<open>
  The Redis hashes \<^verbatim>\<open>vnode:owners\<close> and \<^verbatim>\<open>vnode:load\<close> are association lists from
  field names to values, in the order in which \<^verbatim>\<open>HGETALL\<close> replies, and the keys
  \<^verbatim>\<open>user:<userId>\<close> a map from user ids to instance ids. Expiry of keys is not part of the
  model. \<open>reachable\<close> tells whether the commands of a handler succeed; when they are
  rejected the handler's \<^verbatim>\<open>catch\<close> branch runs.
\<close>

record directory =
  reachable :: bool
  owners :: js_object
  loads :: js_object
  user_cache :: "string \<rightharpoonup> string"

definition hmset :: "js_object \<Rightarrow> js_object \<Rightarrow> js_object" where
  \<comment> \<open>\<^verbatim>\<open>HMSET\<close> with the entries of an object: a present field keeps its place, a new one is added\<close>
  "hmset obj hash = fold (\<lambda>(k, v). AList.update k v) obj hash"

definition getAllVnodeOwners :: "directory \<Rightarrow> js_object" where
  \<comment> \<open>the object that \<^verbatim>\<open>hgetall\<close> builds from the reply\<close>
  "getAllVnodeOwners d = js_order (owners d)"

definition updateVnodeOwners :: "js_object \<Rightarrow> directory \<Rightarrow> directory" where
  "updateVnodeOwners vnodeMappings d =
     (if length vnodeMappings = 0 then d
      else d\<lparr>owners := hmset vnodeMappings (owners d)\<rparr>)"

definition updateVnodeLoads :: "js_object \<Rightarrow> directory \<Rightarrow> directory" where
  "updateVnodeLoads vnodeLoads d =
     (if length vnodeLoads = 0 then d
      else d\<lparr>loads := hmset vnodeLoads (loads d)\<rparr>)"

definition hdel_owner :: "string \<Rightarrow> directory \<Rightarrow> directory" where
  \<comment> \<open>\<^verbatim>\<open>pipeline.hdel(redisClient.VNODE_OWNERS_KEY, vnodeId)\<close>\<close>
  "hdel_owner field d = d\<lparr>owners := AList.delete field (owners d)\<rparr>"

definition cacheUserInstance :: "string \<Rightarrow> string \<Rightarrow> directory \<Rightarrow> directory" where
  "cacheUserInstance userId instanceId d = d\<lparr>user_cache := (user_cache d)(userId \<mapsto> instanceId)\<rparr>"

definition getCachedUserInstance :: "directory \<Rightarrow> string \<Rightarrow> string option" where
  "getCachedUserInstance d userId = user_cache d userId"

section \<open>The coordinator (coordinator/server.js)\<close>

record coordinator =
  ring :: ConsistentHash
  redis :: directory

record response =
  status :: nat
  body :: json

definition error_response :: "nat \<Rightarrow> string \<Rightarrow> response" where
  \<comment> \<open>\<^verbatim>\<open>res.status(code).json({ error: msg })\<close>\<close>
  "error_response code msg = \<lparr>status = code, body = JObj [(''error'', JStr msg)]\<rparr>"

record register_body =
  instanceId :: "string option"
  weight :: "int option"

text \<open>
  The scan for available vnodes: \<open>i\<close> is the loop counter, \<open>acc\<close> the array
  \<^verbatim>\<open>availableVnodes\<close>; the loop is left when the array has \<open>cnt\<close> elements.
\<close>

function findAvailable :: "js_object \<Rightarrow> int \<Rightarrow> int \<Rightarrow> nat \<Rightarrow> nat list \<Rightarrow> nat list" where
  "findAvailable currentVnodeMap V cnt i acc =
     (if int i < V then
        (if \<not> truthy (map_of currentVnodeMap (String_nat i)) then
           (let acc' = acc @ [i] in
            if int (length acc') \<ge> cnt then acc'
            else findAvailable currentVnodeMap V cnt (i + 1) acc')
         else findAvailable currentVnodeMap V cnt (i + 1) acc)
      else acc)"
  by pat_completeness auto
termination
  by (relation "measure (\<lambda>(m, V, cnt, i, acc). nat V - i)") auto

declare findAvailable.simps [simp del]

text \<open>
  \<^verbatim>\<open>POST /nodes/register\<close>. The weight is an integer; \<^verbatim>\<open>Math.floor(V * weight / 100)\<close> is
  then the integer quotient rounded down (the product is far below \<open>2^53\<close>, where the
  floating-point quotient has the same floor).
\<close>

definition register :: "register_body \<Rightarrow> coordinator \<Rightarrow> response \<times> coordinator" where
  "register req c =
     (let w = (case weight req of None \<Rightarrow> 1 | Some w \<Rightarrow> w) in
      if \<not> truthy (instanceId req) then (error_response 400 ''instanceId is required'', c)
      else if \<not> reachable (redis c) then (error_response 500 ''Internal server error'', c)
      else
        let iid = the (instanceId req);
            cnt = max 1 ((vnodeCount (ring c) * w) div 100);
            currentVnodeMap = getAllVnodeOwners (redis c);
            availableVnodes = findAvailable currentVnodeMap (vnodeCount (ring c)) cnt 0 []
        in if length availableVnodes = 0 then (error_response 409 ''No available vnodes'', c)
           else
             let vnodeMappings =
                   fold (\<lambda>vnodeId m. js_put (String_nat vnodeId) iid m) availableVnodes []
             in (\<lparr>status = 201,
                  body = JObj [(''instanceId'', JStr iid),
                               (''assignedVnodes'', JArr (map (\<lambda>v. JNum (int v)) availableVnodes))]\<rparr>,
                 c\<lparr>redis := updateVnodeOwners vnodeMappings (redis c),
                   ring := updateVnodeMappings vnodeMappings (ring c)\<rparr>))"

text \<open>
  \<^verbatim>\<open>POST /nodes/unregister\<close>. \<^verbatim>\<open>vnodesToRemove\<close> holds the keys that \<^verbatim>\<open>Object.entries\<close>
  yields, which are strings, and the response carries them as they are.
\<close>

definition unregister :: "string option \<Rightarrow> coordinator \<Rightarrow> response \<times> coordinator" where
  "unregister instanceId_opt c =
     (if \<not> truthy instanceId_opt then (error_response 400 ''instanceId is required'', c)
      else if \<not> reachable (redis c) then (error_response 500 ''Internal server error'', c)
      else
        let iid = the instanceId_opt;
            currentVnodeMap = getAllVnodeOwners (redis c);
            vnodesToRemove = map fst (filter (\<lambda>(_, instance). instance = iid) currentVnodeMap)
        in if length vnodesToRemove = 0
           then (error_response 404 ''No vnodes found for this instance'', c)
           else
             let vnodeMap = fold AList.delete vnodesToRemove (getVnodeMap (ring c))
             in (\<lparr>status = 200,
                  body = JObj [(''instanceId'', JStr iid),
                               (''removedVnodes'', JArr (map JStr vnodesToRemove))]\<rparr>,
                 c\<lparr>redis := fold hdel_owner vnodesToRemove (redis c),
                   ring := updateVnodeMappings vnodeMap (ring c)\<rparr>))"

definition json_of_vnode :: "int option \<Rightarrow> json" where
  \<comment> \<open>\<^verbatim>\<open>JSON.stringify\<close> writes \<^verbatim>\<open>NaN\<close> as \<^verbatim>\<open>null\<close>\<close>
  "json_of_vnode v = (case v of None \<Rightarrow> JNull | Some i \<Rightarrow> JNum i)"

text \<open>\<^verbatim>\<open>GET /route\<close>.\<close>

definition route :: "string option \<Rightarrow> coordinator \<Rightarrow> response \<times> coordinator" where
  "route userId_opt c =
     (if \<not> truthy userId_opt then (error_response 400 ''userId is required'', c)
      else if \<not> reachable (redis c) then (error_response 500 ''Internal server error'', c)
      else
        let userId = the userId_opt;
            cachedInstance = getCachedUserInstance (redis c) userId
        in if truthy cachedInstance
           then (\<lparr>status = 200,
                  body = JObj [(''userId'', JStr userId),
                               (''instance'', JStr (the cachedInstance)),
                               (''source'', JStr ''cache'')]\<rparr>, c)
           else
             let vnodeId = getUserVnode (ring c) userId;
                 local = getInstanceForVnode (ring c) vnodeId;
                 (instance, ring') =
                   (if \<not> truthy local then
                      (let vnodeMap = getAllVnodeOwners (redis c);
                           found = map_of vnodeMap (js_key vnodeId)
                       in (found, if truthy found
                                  then setVnodeMapping vnodeId (the found) (ring c)
                                  else ring c))
                    else (local, ring c))
             in if \<not> truthy instance
                then (error_response 404 ''No instance available for this user'', c\<lparr>ring := ring'\<rparr>)
                else (\<lparr>status = 200,
                       body = JObj [(''userId'', JStr userId),
                                    (''vnode'', json_of_vnode vnodeId),
                                    (''instance'', JStr (the instance)),
                                    (''source'', JStr ''hash'')]\<rparr>,
                      c\<lparr>ring := ring',
                        redis := cacheUserInstance userId (the instance) (redis c)\<rparr>))"

text \<open>
  The register algorithm of the specification: the ids \<open>0..V-1\<close> in ascending order that
  are absent from the owners snapshot (an id is occupied when the snapshot holds an owner for
  its key).
\<close>

definition free_vnodes :: "js_object \<Rightarrow> int \<Rightarrow> nat list" where
  "free_vnodes snapshot V =
     filter (\<lambda>i. \<not> truthy (map_of snapshot (String_nat i))) [0..<nat V]"

section \<open>Token extraction (class Auth)\<close>

text \<open>\<^verbatim>\<open>s.split(' ')\<close>: the pieces between the spaces; the result is never empty.\<close>

fun split_space :: "string \<Rightarrow> string list" where
  "split_space [] = [[]]"
| "split_space (c # cs) =
     (if c = CHR '' '' then [] # split_space cs
      else (let r = split_space cs in (c # hd r) # tl r))"

text \<open>
  The parts of the upgrade request that \<^verbatim>\<open>extractToken\<close> reads: the \<^verbatim>\<open>Authorization\<close> header,
  the \<^verbatim>\<open>token\<close> parameter of the request URL (the URL itself is never empty) and the
  \<^verbatim>\<open>token\<close> cookie.
\<close>

record request =
  authorization :: "string option"
  url_token :: "string option"
  cookie_token :: "string option"

definition extractToken :: "request \<Rightarrow> string option" where
  "extractToken req =
     (let token0 =
            (if truthy (authorization req) then
               (let parts = split_space (the (authorization req)) in
                if length parts = 2 \<and> parts ! 0 = ''Bearer'' then Some (parts ! 1) else None)
             else None);
          token1 = (if \<not> truthy token0 then url_token req else token0);
          token2 = (if \<not> truthy token1 \<and> truthy (cookie_token req)
                    then cookie_token req else token1)
      in token2)"

section \<open>The presence node (WebSocket node)\<close>

text \<open>
  The configuration of a node. \<open>assignedVnodes\<close> holds integers. \<open>jwt_verify\<close> stands for
  \<^verbatim>\<open>jwt.verify(token, config.jwtSecret)\<close> of the JSON web token library: \<open>None\<close> when it throws,
  otherwise the \<^verbatim>\<open>userId\<close> field of the decoded payload.
\<close>

record node_config =
  nodeId :: string
  assignedVnodes :: "int list"
  node_vnodeCount :: int
  jwt_verify :: "string \<Rightarrow> string option option"

definition extractUserId :: "node_config \<Rightarrow> string \<Rightarrow> string option" where
  \<comment> \<open>\<^verbatim>\<open>decoded ? decoded.userId : null\<close>\<close>
  "extractUserId cfg token = (case jwt_verify cfg token of None \<Rightarrow> None | Some uid \<Rightarrow> uid)"

definition node_ring :: "node_config \<Rightarrow> ConsistentHash" where
  \<comment> \<open>\<^verbatim>\<open>new ConsistentHash(config.vnodeCount)\<close>; a node never writes its vnode map\<close>
  "node_ring cfg = \<lparr>vnodeCount = node_vnodeCount cfg, vnodeMap = []\<rparr>"

definition isUserOwnedByThisNode :: "node_config \<Rightarrow> string \<Rightarrow> bool" where
  "isUserOwnedByThisNode cfg userId =
     (case getUserVnode (node_ring cfg) userId of
        None \<Rightarrow> False
      | Some userVnodeId \<Rightarrow> userVnodeId \<in> set (assignedVnodes cfg))"

type_synonym ws = nat

record status_event =
  ev_userId :: string
  ev_action :: string
  ev_timestamp :: int
  ev_nodeId :: string

text \<open>What a handler does to the outside: closing a socket, publishing to the bus, sending a frame.\<close>

datatype effect =
  Close ws nat string
| Publish string status_event
| Send ws json

text \<open>
  The state of a node: the map \<open>clients\<close>, the object \<open>onlineUsers\<close> (indexed by vnode ids),
  the close handlers registered with \<^verbatim>\<open>ws.on('close', ...)\<close> together with the \<open>userId\<close> and
  \<open>vnodeId\<close> they captured, and the effects so far. A socket counts as open while its close
  handler is registered.
\<close>

record node =
  clients :: "string \<rightharpoonup> ws"
  onlineUsers :: "int \<rightharpoonup> string set"
  handlers :: "ws \<rightharpoonup> string \<times> int"
  log :: "effect list"

definition init_node :: "node_config \<Rightarrow> node" where
  "init_node cfg =
     \<lparr>clients = Map.empty,
      onlineUsers = fold (\<lambda>vnodeId m. m(vnodeId \<mapsto> {})) (assignedVnodes cfg) Map.empty,
      handlers = Map.empty,
      log = []\<rparr>"

definition ws_close :: "ws \<Rightarrow> nat \<Rightarrow> string \<Rightarrow> node \<Rightarrow> node" where
  "ws_close sock code reason s = s\<lparr>log := log s @ [Close sock code reason]\<rparr>"

definition presence_event :: "node_config \<Rightarrow> string \<Rightarrow> string \<Rightarrow> int \<Rightarrow> status_event" where
  "presence_event cfg userId action now =
     \<lparr>ev_userId = userId, ev_action = action, ev_timestamp = now, ev_nodeId = nodeId cfg\<rparr>"

text \<open>
  The handler of \<^verbatim>\<open>wss.on('connection')\<close> for the socket \<open>sock\<close>. \<open>now\<close> is \<^verbatim>\<open>Date.now()\<close>, and
  \<open>send_ok\<close> tells whether \<^verbatim>\<open>producer.send\<close> succeeds; when it is rejected, or when
  \<^verbatim>\<open>onlineUsers[vnodeId]\<close> is undefined, the \<^verbatim>\<open>catch\<close> branch closes the socket with 1011.
\<close>

definition connection :: "node_config \<Rightarrow> ws \<Rightarrow> request \<Rightarrow> int \<Rightarrow> bool \<Rightarrow> node \<Rightarrow> node" where
  "connection cfg sock req now send_ok s =
     (let token = extractToken req in
      if \<not> truthy token then ws_close sock 1008 ''No token provided'' s
      else
        let userId_opt = extractUserId cfg (the token) in
        if \<not> truthy userId_opt then ws_close sock 1008 ''Invalid token'' s
        else
          let userId = the userId_opt in
          if \<not> isUserOwnedByThisNode cfg userId
          then ws_close sock 1008 ''User does not belong to this node'' s
          else
            let s1 = s\<lparr>clients := (clients s)(userId \<mapsto> sock)\<rparr> in
            case getUserVnode (node_ring cfg) userId of
              None \<Rightarrow> ws_close sock 1011 ''Internal server error'' s1
            | Some vnodeId \<Rightarrow>
                (case onlineUsers s1 vnodeId of
                   None \<Rightarrow> ws_close sock 1011 ''Internal server error'' s1
                 | Some users \<Rightarrow>
                     let s2 = s1\<lparr>onlineUsers := (onlineUsers s1)(vnodeId \<mapsto> insert userId users)\<rparr>
                     in if \<not> send_ok then ws_close sock 1011 ''Internal server error'' s2
                        else
                          s2\<lparr>handlers := (handlers s2)(sock \<mapsto> (userId, vnodeId)),
                             log := log s2 @
                               [Publish userId (presence_event cfg userId ''online'' now),
                                Send sock (JObj [(''type'', JStr ''welcome''),
                                                 (''userId'', JStr userId),
                                                 (''nodeId'', JStr (nodeId cfg)),
                                                 (''timestamp'', JNum now)])]\<rparr>))"

text \<open>
  The handler of \<^verbatim>\<open>ws.on('close')\<close>; it runs once per socket. A rejected \<^verbatim>\<open>producer.send\<close> is
  caught and logged only.
\<close>

definition on_close :: "node_config \<Rightarrow> ws \<Rightarrow> int \<Rightarrow> bool \<Rightarrow> node \<Rightarrow> node" where
  "on_close cfg sock now send_ok s =
     (case handlers s sock of
        None \<Rightarrow> s
      | Some (userId, vnodeId) \<Rightarrow>
          (case onlineUsers s vnodeId of
             None \<Rightarrow> s\<lparr>handlers := (handlers s)(sock := None)\<rparr>
           | Some users \<Rightarrow>
               s\<lparr>onlineUsers := (onlineUsers s)(vnodeId \<mapsto> users - {userId}),
                 clients := (clients s)(userId := None),
                 handlers := (handlers s)(sock := None),
                 log := log s @
                   (if send_ok then [Publish userId (presence_event cfg userId ''offline'' now)]
                    else [])\<rparr>))"

text \<open>
  The consumer's \<^verbatim>\<open>eachMessage\<close>. A message that does not parse is \<open>None\<close>; it is dropped by
  the \<^verbatim>\<open>catch\<close> branch, as is a message whose set \<^verbatim>\<open>onlineUsers[vnodeId]\<close> is undefined.
\<close>

definition eachMessage :: "node_config \<Rightarrow> status_event option \<Rightarrow> node \<Rightarrow> node" where
  "eachMessage cfg message s =
     (case message of
        None \<Rightarrow> s
      | Some payload \<Rightarrow>
          let userId = ev_userId payload; action = ev_action payload in
          if ev_nodeId payload = nodeId cfg then s
          else if \<not> isUserOwnedByThisNode cfg userId then s
          else
            (case getUserVnode (node_ring cfg) userId of
               None \<Rightarrow> s
             | Some vnodeId \<Rightarrow>
                 let updated =
                       (if action = ''online'' then
                          (case onlineUsers s vnodeId of
                             None \<Rightarrow> None
                           | Some users \<Rightarrow>
                               Some (s\<lparr>onlineUsers := (onlineUsers s)(vnodeId \<mapsto> insert userId users)\<rparr>))
                        else if action = ''offline'' then
                          (case onlineUsers s vnodeId of
                             None \<Rightarrow> None
                           | Some users \<Rightarrow>
                               Some (s\<lparr>onlineUsers := (onlineUsers s)(vnodeId \<mapsto> users - {userId})\<rparr>))
                        else Some s)
                 in case updated of
                      None \<Rightarrow> s
                    | Some s' \<Rightarrow>
                        (case clients s' userId of
                           None \<Rightarrow> s'
                         | Some client \<Rightarrow>
                             if handlers s' client \<noteq> None
                             then s'\<lparr>log := log s' @
                                    [Send client
                                       (JObj [(''type'', JStr ''status_update''),
                                              (''action'', JStr action),
                                              (''timestamp'', JNum (ev_timestamp payload)),
                                              (''sourceNodeId'', JStr (ev_nodeId payload))])]\<rparr>
                             else s')))"

definition apply_events :: "node_config \<Rightarrow> status_event option list \<Rightarrow> node \<Rightarrow> node" where
  \<comment> \<open>the consumer handles the messages of a partition one after the other\<close>
  "apply_events cfg messages s = fold (eachMessage cfg) messages s"

text \<open>The states a node reaches by connects, disconnects and bus events.\<close>

inductive reachable_node :: "node_config \<Rightarrow> node \<Rightarrow> bool" for cfg :: node_config where
  start: "reachable_node cfg (init_node cfg)"
| connect: "reachable_node cfg s \<Longrightarrow> reachable_node cfg (connection cfg sock req now send_ok s)"
| disconnect: "reachable_node cfg s \<Longrightarrow> reachable_node cfg (on_close cfg sock now send_ok s)"
| bus_event: "reachable_node cfg s \<Longrightarrow> reachable_node cfg (eachMessage cfg message s)"

text \<open>The invariant of the object \<open>onlineUsers\<close>.\<close>

definition node_inv :: "node_config \<Rightarrow> node \<Rightarrow> bool" where
  "node_inv cfg s \<longleftrightarrow>
     dom (onlineUsers s) = set (assignedVnodes cfg) \<and>
     (\<forall>v users u. onlineUsers s v = Some users \<and> u \<in> users \<longrightarrow>
        getUserVnode (node_ring cfg) u = Some v)"

section \<open>Heartbeat and startup of the presence node\<close>

text \<open>
  \<^verbatim>\<open>updateHeartbeat\<close>: the ownership and the load of every assigned vnode are written to the
  directory. Reading the size of an undefined set, or a rejected Redis command, ends in the
  \<^verbatim>\<open>catch\<close> branch, which only logs.
\<close>

definition updateHeartbeat :: "node_config \<Rightarrow> node \<Rightarrow> directory \<Rightarrow> directory" where
  "updateHeartbeat cfg s d =
     (let vnodeOwners =
            fold (\<lambda>vnodeId m. js_put (js_key (Some vnodeId)) (nodeId cfg) m)
              (assignedVnodes cfg) []
      in if \<not> list_all (\<lambda>vnodeId. onlineUsers s vnodeId \<noteq> None) (assignedVnodes cfg) then d
         else
           let vnodeLoad =
                 fold (\<lambda>vnodeId m. js_put (js_key (Some vnodeId))
                         (String_nat (card (the (onlineUsers s vnodeId)))) m)
                   (assignedVnodes cfg) []
           in if \<not> reachable d then d
              else updateVnodeLoads vnodeLoad (updateVnodeOwners vnodeOwners d))"

text \<open>
  The process of a node during \<^verbatim>\<open>start()\<close>: \<open>listening\<close> holds once \<^verbatim>\<open>server.listen\<close> was
  called, from when on client connections are accepted; \<open>heartbeat_timer\<close> once
  \<^verbatim>\<open>setInterval(updateHeartbeat, ...)\<close> was called; \<open>heartbeats\<close> counts the runs of
  \<^verbatim>\<open>updateHeartbeat\<close> that have completed; \<open>shutdown_handlers\<close> holds once the handlers of
  \<^verbatim>\<open>SIGINT\<close> and \<^verbatim>\<open>SIGTERM\<close> are registered; \<open>exited\<close> is the status of \<^verbatim>\<open>process.exit\<close>.
\<close>

record process =
  pnode :: node
  pdir :: directory
  producer_connected :: bool
  consumer_connected :: bool
  subscribed :: bool
  listening :: bool
  heartbeat_timer :: bool
  heartbeats :: nat
  shutdown_handlers :: bool
  exited :: "nat option"

text \<open>
  \<^verbatim>\<open>start()\<close> of the node, as the list of the process states after each of its statements, in
  program order: \<^verbatim>\<open>producer.connect\<close>, \<^verbatim>\<open>consumer.connect\<close>, the subscription to the bus
  (whose own errors are caught and logged), \<^verbatim>\<open>server.listen\<close>, \<^verbatim>\<open>setInterval\<close>, the awaited
  \<^verbatim>\<open>updateHeartbeat()\<close>, and the registration of the shutdown handlers. \<open>producer_ok\<close> and
  \<open>consumer_ok\<close> tell whether the two connections succeed; when one is rejected, the
  \<^verbatim>\<open>catch\<close> branch exits with status 1. What other handlers do to the node while \<^verbatim>\<open>start()\<close>
  awaits is not part of this function.
\<close>

definition start :: "node_config \<Rightarrow> bool \<Rightarrow> bool \<Rightarrow> process \<Rightarrow> process list" where
  "start cfg producer_ok consumer_ok p =
     (if \<not> producer_ok then [p\<lparr>exited := Some 1\<rparr>]
      else
        let p1 = p\<lparr>producer_connected := True\<rparr> in
        if \<not> consumer_ok then [p1, p1\<lparr>exited := Some 1\<rparr>]
        else
          let p2 = p1\<lparr>consumer_connected := True\<rparr>;
              p3 = p2\<lparr>subscribed := True\<rparr>;
              p4 = p3\<lparr>listening := True\<rparr>;
              p5 = p4\<lparr>heartbeat_timer := True\<rparr>;
              p6 = p5\<lparr>pdir := updateHeartbeat cfg (pnode p5) (pdir p5),
                     heartbeats := Suc (heartbeats p5)\<rparr>;
              p7 = p6\<lparr>shutdown_handlers := True\<rparr>
          in [p1, p2, p3, p4, p5, p6, p7])"

definition fresh_process :: "node_config \<Rightarrow> directory \<Rightarrow> process" where
  \<comment> \<open>the process before \<^verbatim>\<open>start()\<close> runs\<close>
  "fresh_process cfg d =
     \<lparr>pnode = init_node cfg, pdir = d, producer_connected = False, consumer_connected = False,
      subscribed = False, listening = False, heartbeat_timer = False, heartbeats = 0,
      shutdown_handlers = False, exited = None\<rparr>"

definition empty_directory :: directory where
  "empty_directory = \<lparr>reachable = True, owners = [], loads = [], user_cache = Map.empty\<rparr>"

section \<open>Example inputs\<close>

text \<open>
  Example inputs: a node with 1024 vnodes whose token verifier accepts every token and reads the
  token itself as the user id, and an upgrade request carrying a bearer token.
\<close>

definition example_node :: "int list \<Rightarrow> node_config" where
  "example_node vs =
     \<lparr>nodeId = ''node-1'', assignedVnodes = vs, node_vnodeCount = 1024,
      jwt_verify = (\<lambda>t. Some (Some t))\<rparr>"

definition bearer_request :: "string \<Rightarrow> request" where
  "bearer_request t = \<lparr>authorization = Some (''Bearer '' @ t), url_token = None, cookie_token = None\<rparr>"

section \<open>Properties of the hash ring\<close>

lemma length_md5: "length (md5 m) = 16"
  by (simp add: md5_def word_le_bytes_def split: prod.splits)

lemma hex_value_hex_digit: "d < 16 \<Longrightarrow> hex_value (hex_digit d) = Some d"
proof -
  assume "d < 16"
  then have "d = 0 \<or> d = 1 \<or> d = 2 \<or> d = 3 \<or> d = 4 \<or> d = 5 \<or> d = 6 \<or> d = 7 \<or>
     d = 8 \<or> d = 9 \<or> d = 10 \<or> d = 11 \<or> d = 12 \<or> d = 13 \<or> d = 14 \<or> d = 15" by arith
  then show ?thesis
    by (auto simp: hex_value_def hex_digit_def)
qed

lemma parse_hex_hex_byte:
  "parse_hex acc (hex_byte b @ rest) = parse_hex (256 * acc + unat b) rest"
proof -
  have "unat b < 256" using unsigned_less [of b, where 'a = nat] by simp
  then have "unat b div 16 < 16" by simp
  moreover have "unat b mod 16 < 16" by simp
  moreover have "16 * (16 * acc + unat b div 16) + unat b mod 16 = 256 * acc + unat b"
    by presburger
  ultimately show ?thesis
    by (simp add: hex_byte_def hex_value_hex_digit add.commute)
qed

text \<open>Parsing the first eight hexadecimal digits of a digest reads its first four bytes.\<close>

lemma parseInt16_digest:
  assumes "length digest = 16"
  shows "parseInt16 (substring (hex_digest digest) 0 8) = Some (first32 digest)"
proof -
  from assms obtain b0 b1 b2 b3 rest where d: "digest = b0 # b1 # b2 # b3 # rest"
    by (auto simp: length_Suc_conv numeral_eq_Suc)
  have s: "substring (hex_digest digest) 0 8
      = hex_byte b0 @ hex_byte b1 @ hex_byte b2 @ hex_byte b3 @ []"
    by (simp add: d substring_def hex_digest_def hex_byte_def)
  have "unat b0 div 16 < 16" using unsigned_less [of b0, where 'a = nat] by simp
  then have h: "hex_value (hex_digit (unat b0 div 16)) = Some (unat b0 div 16)"
    by (rule hex_value_hex_digit)
  have "parseInt16 (substring (hex_digest digest) 0 8)
      = Some (parse_hex 0 (hex_byte b0 @ hex_byte b1 @ hex_byte b2 @ hex_byte b3 @ []))"
    unfolding s by (simp add: parseInt16_def hex_byte_def h)
  also have "parse_hex 0 (hex_byte b0 @ hex_byte b1 @ hex_byte b2 @ hex_byte b3 @ [])
      = first32 digest"
    by (simp only: parse_hex_hex_byte) (simp add: first32_def d)
  finally show ?thesis .
qed

lemma getUserVnode_eq_ref:
  "0 < vnodeCount ch \<Longrightarrow> getUserVnode ch userId = Some (userVnode_ref (vnodeCount ch) userId)"
  by (simp add: getUserVnode_def parseInt16_digest length_md5 js_rem_def userVnode_ref_def sgn_if)

lemma userVnode_ref_range: "0 < V \<Longrightarrow> 0 \<le> userVnode_ref V userId \<and> userVnode_ref V userId < V"
  by (simp add: userVnode_ref_def)

text \<open>
  Claim C1. For every user id and every vnode count \<open>V > 0\<close>, \<open>getUserVnode\<close> returns the
  reference MD5-truncation value (first 32 bits of the MD5 digest of the UTF-8 bytes, modulo
  \<open>V\<close>); the value depends on the user id and \<open>V\<close> only, not on the ring's mutable vnode map,
  so it is the same at every invocation; and it lies in \<open>[0, V)\<close>.
\<close>

theorem getUserVnode_reference:
  assumes "0 < vnodeCount ch"
  shows "getUserVnode ch userId = Some (userVnode_ref (vnodeCount ch) userId)
       \<and> getUserVnode (ch\<lparr>vnodeMap := m\<rparr>) userId = getUserVnode ch userId
       \<and> 0 \<le> userVnode_ref (vnodeCount ch) userId
       \<and> userVnode_ref (vnodeCount ch) userId < vnodeCount ch"
  using assms
  by (simp add: getUserVnode_eq_ref userVnode_ref_range)

theorem getUserVnode_reference_witness:
  "0 < vnodeCount \<lparr>vnodeCount = 16, vnodeMap = []\<rparr>
   \<and> getUserVnode \<lparr>vnodeCount = 16, vnodeMap = []\<rparr> ''u1'' = Some (userVnode_ref 16 ''u1'')
   \<and> getUserVnode \<lparr>vnodeCount = 16, vnodeMap = [(''3'', ''A'')]\<rparr> ''u1''
       = getUserVnode \<lparr>vnodeCount = 16, vnodeMap = []\<rparr> ''u1''
   \<and> 0 \<le> userVnode_ref 16 ''u1'' \<and> userVnode_ref 16 ''u1'' < 16"
proof -
  have h: "0 < vnodeCount \<lparr>vnodeCount = 16, vnodeMap = []\<rparr>" by simp
  show ?thesis
    using h getUserVnode_reference [OF h, of "''u1''" "[(''3'', ''A'')]"] by simp
qed

text \<open>The digest of the user id \<^verbatim>\<open>u1\<close>, evaluated from the definition of MD5.\<close>

lemma md5_u1: "md5 (utf8_bytes ''u1'') =
   [0xe4, 0x77, 0x4c, 0xdd, 0xa0, 0x79, 0x3f, 0x86, 0x41, 0x4e, 0x8b, 0x91, 0x40, 0xbb, 0x6d, 0xb4]"
  by code_simp

lemma first32_u1: "first32 (md5 (utf8_bytes ''u1'')) = 0xe4774cdd"
  by (simp add: md5_u1 first32_def)

lemma getUserVnode_u1: "vnodeCount ch = 1024 \<Longrightarrow> getUserVnode ch ''u1'' = Some 221"
  by (simp add: getUserVnode_eq_ref userVnode_ref_def first32_u1)

text \<open>
  Claim C9, as stated: for \<open>V = 1024\<close> the user id \<^verbatim>\<open>u1\<close> is mapped to vnode 185, the first
  32 bits of its digest being \<^verbatim>\<open>0x0cc175b9\<close>, whose remainder modulo 1024 would be 185.
  None of the three parts holds.
\<close>

theorem route_u1_counterexample:
  "getUserVnode \<lparr>vnodeCount = 1024, vnodeMap = []\<rparr> ''u1'' \<noteq> Some 185
   \<and> first32 (md5 (utf8_bytes ''u1'')) \<noteq> 0x0cc175b9
   \<and> (0x0cc175b9 :: int) mod 1024 \<noteq> 185"
  by (simp add: getUserVnode_u1 first32_u1)

text \<open>
  Claim C9, amended: for \<open>V = 1024\<close> the user id \<^verbatim>\<open>u1\<close> is mapped to vnode 221; the first
  32 bits of its MD5 digest are \<^verbatim>\<open>0xe4774cdd\<close>, and \<^verbatim>\<open>0xe4774cdd\<close> modulo 1024 is 221.
\<close>

theorem route_u1_vnode:
  "getUserVnode \<lparr>vnodeCount = 1024, vnodeMap = m\<rparr> ''u1'' = Some 221
   \<and> first32 (md5 (utf8_bytes ''u1'')) = 0xe4774cdd
   \<and> (0xe4774cdd :: int) mod 1024 = 221"
  by (simp add: getUserVnode_u1 first32_u1)

section \<open>Properties of the coordinator\<close>

lemma findAvailable_take:
  "int (length acc) < cnt \<Longrightarrow>
   findAvailable m V cnt i acc =
     acc @ take (nat cnt - length acc) (filter (\<lambda>i. \<not> truthy (map_of m (String_nat i))) [i..<nat V])"
proof (induction m V cnt i acc rule: findAvailable.induct)
  case (1 m V cnt i acc)
  show ?case
  proof (cases "int i < V")
    case False
    then show ?thesis by (simp add: findAvailable.simps [of m V cnt i acc])
  next
    case True
    then have upt: "[i..<nat V] = i # [Suc i..<nat V]"
      by (simp add: upt_conv_Cons)
    show ?thesis
    proof (cases "truthy (map_of m (String_nat i))")
      case True
      with \<open>int i < V\<close> 1 show ?thesis
        by (simp add: findAvailable.simps [of m V cnt i acc] upt)
    next
      case False
      show ?thesis
      proof (cases "int (length (acc @ [i])) \<ge> cnt")
        case True
        with "1.prems" have "nat cnt - length acc = 1" by simp
        with True False \<open>int i < V\<close> show ?thesis
          by (simp add: findAvailable.simps [of m V cnt i acc] upt)
      next
        case nfull: False
        then have "nat cnt - length acc = Suc (nat cnt - length (acc @ [i]))" by simp
        with nfull False \<open>int i < V\<close> "1.IH"(1) [OF \<open>int i < V\<close> False refl nfull] show ?thesis
          by (simp add: findAvailable.simps [of m V cnt i acc] upt)
      qed
    qed
  qed
qed

text \<open>The enumeration order of an object does not change what its keys are mapped to.\<close>

lemma set_js_order [simp]: "set (js_order al) = set al"
  by (auto simp: js_order_def)

lemma js_order_eq_Nil [simp]: "js_order al = [] \<longleftrightarrow> al = []"
proof -
  have "set (js_order al) = {} \<longleftrightarrow> set al = {}" by simp
  then show ?thesis unfolding set_empty .
qed

lemma map_of_filter_key: "map_of (filter (\<lambda>e. fst e = k) al) k = map_of al k"
  by (induction al) auto

lemma map_of_filter_holds: "(\<And>v. P (k, v)) \<Longrightarrow> map_of (filter P al) k = map_of al k"
  by (induction al) auto

lemma map_of_filter_fails: "(\<And>v. \<not> P (k, v)) \<Longrightarrow> map_of (filter P al) k = None"
  by (induction al) auto

lemma map_of_sort_key_fst: "map_of (sort_key (\<lambda>(k, v). g k) al) k = map_of al k"
proof -
  let ?f = "\<lambda>(k, v). g k"
  have "filter (\<lambda>e. fst e = k) (sort_key ?f al)
      = filter (\<lambda>e. fst e = k) (filter (\<lambda>e. ?f e = g k) (sort_key ?f al))"
    by (auto intro!: filter_cong)
  also have "\<dots> = filter (\<lambda>e. fst e = k) (filter (\<lambda>e. ?f e = g k) al)"
    by (simp only: sort_key_stable)
  also have "\<dots> = filter (\<lambda>e. fst e = k) al"
    by (auto intro!: filter_cong)
  finally have "map_of (filter (\<lambda>e. fst e = k) (sort_key ?f al)) k
      = map_of (filter (\<lambda>e. fst e = k) al) k"
    by simp
  then show ?thesis by (simp only: map_of_filter_key)
qed

lemma map_of_js_order [simp]: "map_of (js_order al) = map_of al"
proof
  fix k
  show "map_of (js_order al) k = map_of al k"
  proof (cases "is_index_key k")
    case True
    then have "map_of (filter (\<lambda>(k, v). is_index_key k) al) k = map_of al k"
      by (intro map_of_filter_holds) simp
    moreover from True have "map_of (filter (\<lambda>(k, v). \<not> is_index_key k) al) k = None"
      by (intro map_of_filter_fails) simp
    ultimately show ?thesis
      by (simp add: js_order_def map_add_def map_of_sort_key_fst split: option.splits)
  next
    case False
    then have "map_of (filter (\<lambda>(k, v). \<not> is_index_key k) al) k = map_of al k"
      by (intro map_of_filter_holds) simp
    moreover from False have "map_of (filter (\<lambda>(k, v). is_index_key k) al) k = None"
      by (intro map_of_filter_fails) simp
    ultimately show ?thesis
      by (simp add: js_order_def map_add_def map_of_sort_key_fst split: option.splits)
  qed
qed

lemma map_of_js_put [simp]: "map_of (js_put k v al) = (map_of al)(k \<mapsto> v)"
  by (simp add: js_put_def update_conv')

lemma set_js_put: "set (js_put k v al) = set (AList.update k v al)"
  by (simp add: js_put_def)

lemma js_put_nonempty [simp]: "js_put k v al \<noteq> []"
  by (simp add: js_put_def)

lemma map_of_fold_js_put:
  "map_of (fold (\<lambda>(k, v). js_put k v) s t) = map_of t ++ map_of (rev s)"
proof (induction s arbitrary: t)
  case Nil
  show ?case by simp
next
  case (Cons e s)
  obtain k v where e: "e = (k, v)" by (cases e)
  show ?case
    by (auto simp: e Cons map_add_def fun_eq_iff split: option.splits)
qed

lemma map_of_Object_assign:
  "map_of (Object_assign t s) = map_of t ++ map_of (rev s)"
  by (simp add: Object_assign_def map_of_fold_js_put)

lemma map_of_hmset:
  "map_of (hmset s t) = map_of t ++ map_of (rev s)"
  unfolding hmset_def
proof (induction s arbitrary: t)
  case Nil
  show ?case by simp
next
  case (Cons e s)
  obtain k v where e: "e = (k, v)" by (cases e)
  show ?case
    by (auto simp: e Cons update_conv' map_add_def fun_eq_iff split: option.splits)
qed

lemma map_of_const:
  "snd ` set l \<subseteq> {c} \<Longrightarrow> map_of l k = (if k \<in> fst ` set l then Some c else None)"
  by (induction l) auto

lemma fold_put_keys:
  "fst ` set (fold (\<lambda>vnodeId m. js_put (key vnodeId) iid m) xs m0)
     = key ` set xs \<union> fst ` set m0"
  by (induction xs arbitrary: m0) (auto simp: set_js_put dom_update)

lemma fold_put_values:
  "snd ` set m0 \<subseteq> {iid} \<Longrightarrow>
   snd ` set (fold (\<lambda>vnodeId m. js_put (key vnodeId) iid m) xs m0) \<subseteq> {iid}"
proof (induction xs arbitrary: m0)
  case Nil
  then show ?case by simp
next
  case (Cons x xs)
  have "snd ` set (AList.update (key x) iid m0) \<subseteq> {iid}"
    using Cons.prems by (induction m0) auto
  then have "snd ` set (js_put (key x) iid m0) \<subseteq> {iid}"
    by (simp add: set_js_put)
  then show ?case using Cons.IH by simp
qed

lemma map_of_vnodeMappings:
  "map_of (rev (fold (\<lambda>vnodeId m. js_put (key vnodeId) iid m) xs [])) k
     = (if k \<in> key ` set xs then Some iid else None)"
proof -
  let ?vm = "fold (\<lambda>vnodeId m. js_put (key vnodeId) iid m) xs []"
  have "snd ` set (rev ?vm) \<subseteq> {iid}"
    using fold_put_values [of "[]" iid key xs] by simp
  from map_of_const [OF this, of k] show ?thesis
    by (simp add: fold_put_keys)
qed

lemma fold_put_nonempty:
  "xs \<noteq> [] \<Longrightarrow> fold (\<lambda>vnodeId m. js_put (key vnodeId) iid m) xs m0 \<noteq> []"
  by (induction xs arbitrary: m0) (auto simp: fold_put_keys dest!: arg_cong [where f = "\<lambda>l. fst ` set l"])

lemma free_vnodes_absent:
  assumes "[] \<notin> snd ` set snapshot"
  shows "free_vnodes snapshot V
       = filter (\<lambda>i. String_nat i \<notin> fst ` set snapshot) [0..<nat V]"
proof -
  have "truthy (map_of snapshot k) \<longleftrightarrow> k \<in> fst ` set snapshot" for k
  proof (cases "map_of snapshot k")
    case None
    then have "k \<notin> fst ` set snapshot" by (simp add: map_of_eq_None_iff)
    with None show ?thesis by (simp add: truthy_def)
  next
    case (Some s)
    then have "(k, s) \<in> set snapshot" by (rule map_of_SomeD)
    with assms have "s \<noteq> []" and "k \<in> fst ` set snapshot" by force+
    with Some show ?thesis by (simp add: truthy_def)
  qed
  then show ?thesis by (simp add: free_vnodes_def)
qed

text \<open>
  Claim C2. For a register request with a non-empty instance id and a weight (1 when absent),
  the coordinator computes \<open>desired = max 1 (V * weight div 100)\<close>, scans the ids \<open>0..V-1\<close> in
  ascending order and takes the first \<open>desired\<close> free ids; in a snapshot whose owners are
  instance ids (non-empty strings) the free ids are the ids absent from the snapshot. When no
  id is free it answers 409 and changes nothing; otherwise it answers 201 with the chosen ids,
  writes the instance as the owner of exactly these ids into the directory, and when fewer than
  \<open>desired\<close> ids are free the chosen ids are all the free ones.
\<close>

theorem register_assignment:
  assumes "truthy (instanceId req)" and "reachable (redis c)"
  shows "let V = vnodeCount (ring c);
             desired = max 1 ((V * (case weight req of None \<Rightarrow> 1 | Some w \<Rightarrow> w)) div 100);
             free = free_vnodes (owners (redis c)) V;
             chosen = take (nat desired) free
         in ([] \<notin> snd ` set (owners (redis c)) \<longrightarrow>
               free = filter (\<lambda>i. String_nat i \<notin> fst ` set (owners (redis c))) [0..<nat V])
          \<and> (free = [] \<longrightarrow> register req c = (error_response 409 ''No available vnodes'', c))
          \<and> (free \<noteq> [] \<longrightarrow>
               chosen \<noteq> []
             \<and> fst (register req c) =
                 \<lparr>status = 201,
                  body = JObj [(''instanceId'', JStr (the (instanceId req))),
                               (''assignedVnodes'', JArr (map (\<lambda>v. JNum (int v)) chosen))]\<rparr>
             \<and> (\<forall>k. map_of (owners (redis (snd (register req c)))) k =
                   (if k \<in> String_nat ` set chosen then instanceId req
                    else map_of (owners (redis c)) k))
             \<and> (length free < nat desired \<longrightarrow> chosen = free))"
proof -
  define V where "V = vnodeCount (ring c)"
  define desired where "desired = max 1 ((V * (case weight req of None \<Rightarrow> 1 | Some w \<Rightarrow> w)) div 100)"
  define free where "free = free_vnodes (owners (redis c)) V"
  define chosen where "chosen = take (nat desired) free"
  obtain iid where iid: "instanceId req = Some iid" "iid \<noteq> []"
    using assms(1) by (auto simp: truthy_def split: option.splits)
  have pos: "0 < desired" by (simp add: desired_def)
  have scan: "findAvailable (getAllVnodeOwners (redis c)) V desired 0 [] = chosen"
    using pos by (simp add: findAvailable_take chosen_def free_def free_vnodes_def getAllVnodeOwners_def)
  have ne: "chosen \<noteq> []" if "free \<noteq> []"
    using that pos by (cases free) (simp_all add: chosen_def take_Cons')
  have r409: "register req c = (error_response 409 ''No available vnodes'', c)" if "free = []"
    using that assms scan
    by (simp add: register_def Let_def V_def [symmetric] desired_def [symmetric] chosen_def)
  have r201: "register req c =
      (\<lparr>status = 201,
        body = JObj [(''instanceId'', JStr iid),
                     (''assignedVnodes'', JArr (map (\<lambda>v. JNum (int v)) chosen))]\<rparr>,
       c\<lparr>redis := updateVnodeOwners (fold (\<lambda>vnodeId m. js_put (String_nat vnodeId) iid m) chosen []) (redis c),
         ring := updateVnodeMappings (fold (\<lambda>vnodeId m. js_put (String_nat vnodeId) iid m) chosen []) (ring c)\<rparr>)"
    if "free \<noteq> []"
    using ne [OF that] assms scan iid
    by (simp add: register_def Let_def V_def [symmetric] desired_def [symmetric])
  have own: "map_of (owners (redis (snd (register req c)))) k =
      (if k \<in> String_nat ` set chosen then instanceId req else map_of (owners (redis c)) k)"
    if "free \<noteq> []" for k
    using fold_put_nonempty [OF ne [OF that], of String_nat iid "[]"]
    by (simp add: r201 [OF that] updateVnodeOwners_def map_of_hmset map_add_def
        map_of_vnodeMappings iid)
  show ?thesis
    unfolding Let_def V_def [symmetric] desired_def [symmetric] free_def [symmetric] chosen_def [symmetric]
    using r409 r201 own ne iid free_vnodes_absent [of "owners (redis c)" V]
    by (auto simp: chosen_def free_def)
qed

theorem register_assignment_witness:
  "truthy (instanceId \<lparr>instanceId = Some ''B'', weight = Some 75\<rparr>)
   \<and> reachable (redis \<lparr>ring = \<lparr>vnodeCount = 4, vnodeMap = []\<rparr>,
        redis = \<lparr>reachable = True, owners = [(''0'', ''A''), (''1'', ''A'')], loads = [],
                 user_cache = Map.empty\<rparr>\<rparr>)
   \<and> [] \<notin> snd ` set [(''0'', ''A''), (''1'', ''A'')]
   \<and> free_vnodes [(''0'', ''A''), (''1'', ''A'')] 4 = [2, 3]
   \<and> length [2, 3 :: nat] < nat (max 1 ((4 * 75) div 100))
   \<and> fst (register \<lparr>instanceId = Some ''B'', weight = Some 75\<rparr>
        \<lparr>ring = \<lparr>vnodeCount = 4, vnodeMap = []\<rparr>,
         redis = \<lparr>reachable = True, owners = [(''0'', ''A''), (''1'', ''A'')], loads = [],
                 user_cache = Map.empty\<rparr>\<rparr>)
     = \<lparr>status = 201,
        body = JObj [(''instanceId'', JStr ''B''), (''assignedVnodes'', JArr [JNum 2, JNum 3])]\<rparr>"
proof -
  let ?req = "\<lparr>instanceId = Some ''B'', weight = Some 75\<rparr>"
  let ?c = "\<lparr>ring = \<lparr>vnodeCount = 4, vnodeMap = []\<rparr>,
         redis = \<lparr>reachable = True, owners = [(''0'', ''A''), (''1'', ''A'')], loads = [],
                 user_cache = Map.empty\<rparr>\<rparr>"
  have h1: "truthy (instanceId ?req)" by (simp add: truthy_def)
  have h2: "reachable (redis ?c)" by simp
  have wf: "[] \<notin> snd ` set [(''0'', ''A''), (''1'', ''A'')]" by simp
  have free: "free_vnodes [(''0'', ''A''), (''1'', ''A'')] 4 = [2, 3]"
    by (simp add: free_vnodes_def upt_conv_Cons String_nat.simps dec_digit_def truthy_def)
  have few: "length [2, 3 :: nat] < nat (max 1 ((4 * 75) div 100))" by simp
  have "fst (register ?req ?c)
      = \<lparr>status = 201,
         body = JObj [(''instanceId'', JStr ''B''), (''assignedVnodes'', JArr [JNum 2, JNum 3])]\<rparr>"
    using register_assignment [OF h1 h2] by (simp add: Let_def free)
  with h1 h2 wf free few show ?thesis by blast
qed

text \<open>
  Claim C3. For a route query with a non-empty user id: when the user-to-instance cache holds
  an entry (a non-empty instance id), the answer is that instance with source \<^verbatim>\<open>cache\<close>, the
  state is unchanged and the answer does not depend on the ring. Otherwise the owner is the local ring's entry for the
  user's vnode or, when the local ring has none, the directory's entry; without an owner the
  answer is 404 and the directory is unchanged; with an owner the cache entry is written, the
  local ring then holds the owner, and the answer is the owner with source \<^verbatim>\<open>hash\<close>.
\<close>

theorem route_algorithm:
  assumes "truthy (Some userId)" and "reachable (redis c)"
  shows "(truthy (user_cache (redis c) userId) \<longrightarrow>
            route (Some userId) c =
              (\<lparr>status = 200,
                body = JObj [(''userId'', JStr userId),
                             (''instance'', JStr (the (user_cache (redis c) userId))),
                             (''source'', JStr ''cache'')]\<rparr>, c)
          \<and> (\<forall>r. fst (route (Some userId) (c\<lparr>ring := r\<rparr>)) = fst (route (Some userId) c)))
       \<and> (\<not> truthy (user_cache (redis c) userId) \<longrightarrow>
            (let v = getUserVnode (ring c) userId;
                 local = getInstanceForVnode (ring c) v;
                 owner = (if truthy local then local else map_of (owners (redis c)) (js_key v))
             in (\<not> truthy owner \<longrightarrow>
                    fst (route (Some userId) c)
                      = error_response 404 ''No instance available for this user''
                  \<and> redis (snd (route (Some userId) c)) = redis c)
              \<and> (truthy owner \<longrightarrow>
                    fst (route (Some userId) c) =
                      \<lparr>status = 200,
                       body = JObj [(''userId'', JStr userId),
                                    (''vnode'', json_of_vnode v),
                                    (''instance'', JStr (the owner)),
                                    (''source'', JStr ''hash'')]\<rparr>
                  \<and> user_cache (redis (snd (route (Some userId) c)))
                      = (user_cache (redis c))(userId \<mapsto> the owner)
                  \<and> getInstanceForVnode (ring (snd (route (Some userId) c))) v = owner)))"
proof -
  have hit: "route (Some userId) c =
              (\<lparr>status = 200,
                body = JObj [(''userId'', JStr userId),
                             (''instance'', JStr (the (user_cache (redis c) userId))),
                             (''source'', JStr ''cache'')]\<rparr>, c)"
    if "truthy (user_cache (redis c) userId)"
    using that assms by (simp add: route_def getCachedUserInstance_def)
  have indep: "fst (route (Some userId) (c\<lparr>ring := r\<rparr>)) = fst (route (Some userId) c)"
    if "truthy (user_cache (redis c) userId)" for r
    using that assms by (simp add: route_def getCachedUserInstance_def)
  have miss: "\<not> truthy (user_cache (redis c) userId) \<Longrightarrow> ?thesis"
    using assms
    by (auto simp: route_def getCachedUserInstance_def Let_def getInstanceForVnode_def
        getAllVnodeOwners_def setVnodeMapping_def cacheUserInstance_def truthy_def
        split: option.splits)
  show ?thesis
  proof (cases "truthy (user_cache (redis c) userId)")
    case True
    with hit indep show ?thesis by simp
  next
    case False
    then show ?thesis by (rule miss)
  qed
qed

theorem route_algorithm_witness:
  "truthy (Some ''u1'')
   \<and> reachable (redis \<lparr>ring = \<lparr>vnodeCount = 1024, vnodeMap = []\<rparr>,
        redis = \<lparr>reachable = True, owners = [(''221'', ''C'')], loads = [],
                 user_cache = Map.empty\<rparr>\<rparr>)
   \<and> \<not> truthy (user_cache (redis \<lparr>ring = \<lparr>vnodeCount = 1024, vnodeMap = []\<rparr>,
        redis = \<lparr>reachable = True, owners = [(''221'', ''C'')], loads = [],
                 user_cache = Map.empty\<rparr>\<rparr>) ''u1'')
   \<and> fst (route (Some ''u1'')
        \<lparr>ring = \<lparr>vnodeCount = 1024, vnodeMap = []\<rparr>,
         redis = \<lparr>reachable = True, owners = [(''221'', ''C'')], loads = [],
                 user_cache = Map.empty\<rparr>\<rparr>)
     = \<lparr>status = 200,
        body = JObj [(''userId'', JStr ''u1''), (''vnode'', JNum 221),
                     (''instance'', JStr ''C''), (''source'', JStr ''hash'')]\<rparr>"
proof -
  let ?c = "\<lparr>ring = \<lparr>vnodeCount = 1024, vnodeMap = []\<rparr>,
         redis = \<lparr>reachable = True, owners = [(''221'', ''C'')], loads = [],
                 user_cache = Map.empty\<rparr>\<rparr>"
  have h1: "truthy (Some ''u1'')" by (simp add: truthy_def)
  have h2: "reachable (redis ?c)" by simp
  have v: "getUserVnode \<lparr>vnodeCount = 1024, vnodeMap = []\<rparr> ''u1'' = Some 221"
    by (simp add: getUserVnode_u1)
  have k: "js_key (Some 221) = ''221''"
    by (simp add: js_key_def String_nat.simps dec_digit_def)
  show ?thesis
    using h1 h2 route_algorithm [OF h1 h2]
    by (simp add: Let_def v k getInstanceForVnode_def truthy_def json_of_vnode_def)
qed

text \<open>
  Claim C7 at a concrete state: the instance \<^verbatim>\<open>A\<close> owns the vnodes 0 and 1 and \<^verbatim>\<open>B\<close> owns
  vnode 2, in the directory and in the local ring. Unregistering \<^verbatim>\<open>A\<close> removes exactly its two
  entries from the directory, but the answer lists the removed ids as the strings \<^verbatim>\<open>"0"\<close> and
  \<^verbatim>\<open>"1"\<close>, not as integers (and the local ring keeps the entries of \<^verbatim>\<open>A\<close>).
\<close>

theorem unregister_reports_strings:
  "unregister (Some ''A'')
     \<lparr>ring = \<lparr>vnodeCount = 4, vnodeMap = [(''0'', ''A''), (''1'', ''A''), (''2'', ''B'')]\<rparr>,
      redis = \<lparr>reachable = True, owners = [(''0'', ''A''), (''1'', ''A''), (''2'', ''B'')],
               loads = [], user_cache = Map.empty\<rparr>\<rparr>
   = (\<lparr>status = 200,
       body = JObj [(''instanceId'', JStr ''A''),
                    (''removedVnodes'', JArr [JStr ''0'', JStr ''1''])]\<rparr>,
      \<lparr>ring = \<lparr>vnodeCount = 4, vnodeMap = [(''0'', ''A''), (''1'', ''A''), (''2'', ''B'')]\<rparr>,
       redis = \<lparr>reachable = True, owners = [(''2'', ''B'')],
                loads = [], user_cache = Map.empty\<rparr>\<rparr>)
   \<and> JArr [JStr ''0'', JStr ''1''] \<noteq> JArr [JNum 0, JNum 1]"
proof -
  have idx: "is_index_key ''0''" "is_index_key ''1''" "is_index_key ''2''"
    by (simp_all add: is_index_key_def is_digit_def nat_of_decimal_def)
  have num: "nat_of_decimal ''0'' = 0" "nat_of_decimal ''1'' = 1" "nat_of_decimal ''2'' = 2"
    by (simp_all add: nat_of_decimal_def)
  show ?thesis
    by (simp add: unregister_def truthy_def getAllVnodeOwners_def hdel_owner_def getVnodeMap_def
        updateVnodeMappings_def Object_assign_def js_put_def js_order_def idx num Let_def)
qed

lemma fold_hdel_owners:
  "owners (fold hdel_owner ks d) = fold AList.delete ks (owners d)"
  by (induction ks arbitrary: d) (simp_all add: hdel_owner_def)

lemma map_of_fold_delete:
  "map_of (fold AList.delete ks al) k = (if k \<in> set ks then None else map_of al k)"
  by (induction ks arbitrary: al) (auto simp: delete_conv')

text \<open>The directory part of unregistering holds in general.\<close>

lemma unregister_directory:
  assumes "truthy (Some N)" and "reachable (redis c)" and "distinct (map fst (owners (redis c)))"
  shows "(N \<notin> snd ` set (owners (redis c)) \<longrightarrow>
            unregister (Some N) c = (error_response 404 ''No vnodes found for this instance'', c))
       \<and> (\<forall>k. map_of (owners (redis (snd (unregister (Some N) c)))) k =
                 (if map_of (owners (redis c)) k = Some N then None
                  else map_of (owners (redis c)) k))"
proof -
  let ?ks = "map fst (filter (\<lambda>(_, instance). instance = N) (js_order (owners (redis c))))"
  have mem: "k \<in> set ?ks \<longleftrightarrow> map_of (owners (redis c)) k = Some N" for k
    using assms(3) by (auto simp: image_iff intro: map_of_SomeD)
  have none: "?ks = []" if "N \<notin> snd ` set (owners (redis c))"
    using that by (auto simp: filter_empty_conv image_iff)
  have r404: "unregister (Some N) c = (error_response 404 ''No vnodes found for this instance'', c)"
    if "?ks = []"
    using that assms(1,2) by (simp add: unregister_def getAllVnodeOwners_def)
  have r200: "redis (snd (unregister (Some N) c)) = fold hdel_owner ?ks (redis c)" if "?ks \<noteq> []"
    using that assms(1,2) by (simp add: unregister_def getAllVnodeOwners_def Let_def)
  have "map_of (owners (redis (snd (unregister (Some N) c)))) k =
          (if map_of (owners (redis c)) k = Some N then None else map_of (owners (redis c)) k)" for k
  proof (cases "?ks = []")
    case True
    with mem [of k] show ?thesis by (simp add: r404)
  next
    case False
    then show ?thesis
      by (simp add: r200 fold_hdel_owners map_of_fold_delete mem del: set_map set_filter)
  qed
  with none r404 show ?thesis by blast
qed

lemma set_fold_delete: "set (fold AList.delete ks al) \<subseteq> set al"
proof (induction ks arbitrary: al)
  case Nil
  show ?case by simp
next
  case (Cons k ks)
  have "set (AList.delete k al) \<subseteq> set al" by (auto simp: AList.delete_eq)
  with Cons [of "AList.delete k al"] show ?case by auto
qed

lemma Object_assign_own_entries:
  assumes "distinct (map fst al)" and "set src \<subseteq> set al"
  shows "map_of (Object_assign al src) = map_of al"
proof
  fix k
  show "map_of (Object_assign al src) k = map_of al k"
  proof (cases "map_of (rev src) k")
    case None
    then show ?thesis by (simp add: map_of_Object_assign map_add_def)
  next
    case (Some v)
    then have "(k, v) \<in> set src" by (auto dest: map_of_SomeD)
    with assms have "map_of al k = Some v" by auto
    with Some show ?thesis by (simp add: map_of_Object_assign map_add_def)
  qed
qed

text \<open>
  The local ring of the coordinator keeps all its entries when an instance is unregistered:
  the remaining entries of the copy are merged into a ring that holds them already, and
  nothing is removed.
\<close>

lemma unregister_keeps_local_ring:
  assumes "distinct (map fst (vnodeMap (ring c)))"
  shows "map_of (vnodeMap (ring (snd (unregister instanceId_opt c)))) = map_of (vnodeMap (ring c))"
proof -
  have "set (fold AList.delete ks (js_order (vnodeMap (ring c)))) \<subseteq> set (vnodeMap (ring c))" for ks
    using set_fold_delete [of ks "js_order (vnodeMap (ring c))"] by simp
  with assms show ?thesis
    by (simp add: unregister_def Let_def updateVnodeMappings_def getVnodeMap_def
        Object_assign_own_entries)
qed

section \<open>Properties of the presence node\<close>

lemma init_onlineUsers:
  "fold (\<lambda>vnodeId m. m(vnodeId \<mapsto> {})) xs m0 = (\<lambda>v. if v \<in> set xs then Some {} else m0 v)"
  by (induction xs arbitrary: m0) (auto simp: fun_eq_iff)

lemma isUserOwned_vnode:
  "isUserOwnedByThisNode cfg u \<Longrightarrow>
   \<exists>v. getUserVnode (node_ring cfg) u = Some v \<and> v \<in> set (assignedVnodes cfg)"
  by (auto simp: isUserOwnedByThisNode_def split: option.splits)

lemma node_inv_init: "node_inv cfg (init_node cfg)"
  by (auto simp: node_inv_def init_node_def init_onlineUsers split: if_splits)

lemma node_inv_connection:
  "node_inv cfg s \<Longrightarrow> node_inv cfg (connection cfg sock req now send_ok s)"
  by (auto simp: node_inv_def connection_def ws_close_def Let_def
      dest!: isUserOwned_vnode split: option.splits if_splits)

lemma node_inv_on_close:
  "node_inv cfg s \<Longrightarrow> node_inv cfg (on_close cfg sock now send_ok s)"
  by (auto simp: node_inv_def on_close_def split: option.splits if_splits)

lemma node_inv_eachMessage:
  "node_inv cfg s \<Longrightarrow> node_inv cfg (eachMessage cfg message s)"
  by (auto simp: node_inv_def eachMessage_def Let_def
      dest!: isUserOwned_vnode split: option.splits if_splits)

lemma reachable_node_inv: "reachable_node cfg s \<Longrightarrow> node_inv cfg s"
  by (induction rule: reachable_node.induct)
     (simp_all add: node_inv_init node_inv_connection node_inv_on_close node_inv_eachMessage)

text \<open>
  Claim C10. In every state that a node reaches by connects, disconnects and bus events, the
  keys of \<open>onlineUsers\<close> are exactly the configured assigned vnodes, and every user id in the
  set of a vnode \<open>v\<close> is hashed to \<open>v\<close>.
\<close>

theorem onlineUsers_invariant:
  assumes "reachable_node cfg s"
  shows "dom (onlineUsers s) = set (assignedVnodes cfg)
       \<and> (\<forall>v users u. onlineUsers s v = Some users \<and> u \<in> users \<longrightarrow>
             getUserVnode (node_ring cfg) u = Some v)"
  using reachable_node_inv [OF assms] by (simp add: node_inv_def)

lemma bearer_u1: "extractToken (bearer_request ''u1'') = Some ''u1''"
  by (simp add: extractToken_def bearer_request_def truthy_def)

lemma example_node_u1: "getUserVnode (node_ring (example_node vs)) ''u1'' = Some 221"
  by (simp add: getUserVnode_u1 node_ring_def example_node_def)

lemma example_userId_u1: "extractUserId (example_node vs) ''u1'' = Some ''u1''"
  by (simp add: extractUserId_def example_node_def)

lemma example_connect_u1:
  "connection (example_node [221]) sock (bearer_request ''u1'') now True s =
     (case onlineUsers s 221 of
        None \<Rightarrow> ws_close sock 1011 ''Internal server error'' (s\<lparr>clients := (clients s)(''u1'' \<mapsto> sock)\<rparr>)
      | Some users \<Rightarrow>
          s\<lparr>clients := (clients s)(''u1'' \<mapsto> sock),
            onlineUsers := (onlineUsers s)(221 \<mapsto> insert ''u1'' users),
            handlers := (handlers s)(sock \<mapsto> (''u1'', 221)),
            log := log s @
              [Publish ''u1'' (presence_event (example_node [221]) ''u1'' ''online'' now),
               Send sock (JObj [(''type'', JStr ''welcome''), (''userId'', JStr ''u1''),
                                (''nodeId'', JStr ''node-1''), (''timestamp'', JNum now)])]\<rparr>)"
  by (simp add: connection_def bearer_u1 truthy_def example_userId_u1 isUserOwnedByThisNode_def
      example_node_u1 Let_def split: option.splits)
    (simp add: example_node_def)

lemma example_init: "onlineUsers (init_node (example_node [221])) = [221 \<mapsto> {}]"
  by (simp add: init_node_def example_node_def)

theorem onlineUsers_invariant_witness:
  "reachable_node (example_node [221])
     (connection (example_node [221]) 1 (bearer_request ''u1'') 100 True
        (init_node (example_node [221])))
   \<and> onlineUsers
       (connection (example_node [221]) 1 (bearer_request ''u1'') 100 True
          (init_node (example_node [221]))) 221 = Some {''u1''}
   \<and> getUserVnode (node_ring (example_node [221])) ''u1'' = Some 221"
proof -
  let ?s = "connection (example_node [221]) 1 (bearer_request ''u1'') 100 True
              (init_node (example_node [221]))"
  have r: "reachable_node (example_node [221]) ?s"
    by (intro reachable_node.connect reachable_node.start)
  have o: "onlineUsers ?s 221 = Some {''u1''}"
    by (simp add: example_connect_u1 example_init)
  from onlineUsers_invariant [OF r] o
  have "getUserVnode (node_ring (example_node [221])) ''u1'' = Some 221"
    by blast
  with r o show ?thesis by simp
qed

text \<open>
  Claim C4. A connection rejected for a client input fault (no token, invalid token, or a user
  whose vnode is not assigned to the node) is closed with code 1008 and the reason of the
  fault; nothing else happens: \<open>clients\<close>, \<open>onlineUsers\<close> and the close handlers are unchanged
  and nothing is published to the bus.
\<close>

theorem connection_rejected:
  assumes "\<not> truthy (extractToken req) \<and> reason = ''No token provided''
         \<or> truthy (extractToken req)
           \<and> \<not> truthy (extractUserId cfg (the (extractToken req)))
           \<and> reason = ''Invalid token''
         \<or> truthy (extractToken req)
           \<and> truthy (extractUserId cfg (the (extractToken req)))
           \<and> \<not> isUserOwnedByThisNode cfg (the (extractUserId cfg (the (extractToken req))))
           \<and> reason = ''User does not belong to this node''"
  shows "connection cfg sock req now send_ok s = s\<lparr>log := log s @ [Close sock 1008 reason]\<rparr>
       \<and> clients (connection cfg sock req now send_ok s) = clients s
       \<and> onlineUsers (connection cfg sock req now send_ok s) = onlineUsers s
       \<and> handlers (connection cfg sock req now send_ok s) = handlers s
       \<and> log (connection cfg sock req now send_ok s) = log s @ [Close sock 1008 reason]"
proof -
  from assms have "connection cfg sock req now send_ok s = s\<lparr>log := log s @ [Close sock 1008 reason]\<rparr>"
    by (auto simp: connection_def ws_close_def Let_def)
  then show ?thesis by simp
qed

theorem connection_rejected_witness:
  "truthy (extractToken (bearer_request ''u1''))
   \<and> truthy (extractUserId (example_node [0, 1, 2]) (the (extractToken (bearer_request ''u1''))))
   \<and> \<not> isUserOwnedByThisNode (example_node [0, 1, 2]) ''u1''
   \<and> connection (example_node [0, 1, 2]) 7 (bearer_request ''u1'') 100 True
        (init_node (example_node [0, 1, 2]))
      = (init_node (example_node [0, 1, 2]))
          \<lparr>log := [Close 7 1008 ''User does not belong to this node'']\<rparr>"
proof -
  have t: "truthy (extractToken (bearer_request ''u1''))"
    by (simp add: bearer_u1 truthy_def)
  have u: "truthy (extractUserId (example_node [0, 1, 2]) (the (extractToken (bearer_request ''u1''))))"
    by (simp add: bearer_u1 example_userId_u1 truthy_def)
  have n: "\<not> isUserOwnedByThisNode (example_node [0, 1, 2])
              (the (extractUserId (example_node [0, 1, 2]) (the (extractToken (bearer_request ''u1'')))))"
    by (simp add: bearer_u1 example_userId_u1 isUserOwnedByThisNode_def example_node_u1)
      (simp add: example_node_def)
  have "connection (example_node [0, 1, 2]) 7 (bearer_request ''u1'') 100 True
          (init_node (example_node [0, 1, 2]))
        = (init_node (example_node [0, 1, 2]))
            \<lparr>log := log (init_node (example_node [0, 1, 2]))
                     @ [Close 7 1008 ''User does not belong to this node'']\<rparr>"
    using connection_rejected [of "bearer_request ''u1''" "''User does not belong to this node''"
        "example_node [0, 1, 2]" 7 100 True "init_node (example_node [0, 1, 2])"] t u n
    by blast
  with t u n show ?thesis
    by (simp add: bearer_u1 example_userId_u1 init_node_def)
qed

text \<open>
  Claim C5, as stated: a connection for a user that already has an entry in \<open>clients\<close> closes
  the previous connection with code 1001 before the new one is inserted. After two
  connections of the user \<^verbatim>\<open>u1\<close> on the sockets 1 and 2, socket 2 is the user's entry, the
  close handler of socket 1 is still registered, and no close was issued at all.
\<close>

theorem duplicate_session_counterexample:
  "clients
     (connection (example_node [221]) 2 (bearer_request ''u1'') 101 True
        (connection (example_node [221]) 1 (bearer_request ''u1'') 100 True
           (init_node (example_node [221])))) ''u1'' = Some 2
   \<and> handlers
       (connection (example_node [221]) 2 (bearer_request ''u1'') 101 True
          (connection (example_node [221]) 1 (bearer_request ''u1'') 100 True
             (init_node (example_node [221])))) 1 = Some (''u1'', 221)
   \<and> log
       (connection (example_node [221]) 2 (bearer_request ''u1'') 101 True
          (connection (example_node [221]) 1 (bearer_request ''u1'') 100 True
             (init_node (example_node [221]))))
     = [Publish ''u1'' (presence_event (example_node [221]) ''u1'' ''online'' 100),
        Send 1 (JObj [(''type'', JStr ''welcome''), (''userId'', JStr ''u1''),
                      (''nodeId'', JStr ''node-1''), (''timestamp'', JNum 100)]),
        Publish ''u1'' (presence_event (example_node [221]) ''u1'' ''online'' 101),
        Send 2 (JObj [(''type'', JStr ''welcome''), (''userId'', JStr ''u1''),
                      (''nodeId'', JStr ''node-1''), (''timestamp'', JNum 101)])]"
  by (simp add: example_connect_u1 example_init) (simp add: init_node_def)

text \<open>
  Claim C5, amended: an accepted connection for a user that already has an entry in \<open>clients\<close>
  replaces the entry by the new socket and does not close the previous one: the handler
  issues no close of any code to the previous socket and leaves its close handler registered.
\<close>

theorem duplicate_session_overwrites:
  assumes "truthy (extractToken req)"
    and "extractUserId cfg (the (extractToken req)) = Some userId"
    and "userId \<noteq> []"
    and "isUserOwnedByThisNode cfg userId"
    and "clients s userId = Some old"
    and "old \<noteq> sock"
  shows "clients (connection cfg sock req now send_ok s) userId = Some sock
       \<and> handlers (connection cfg sock req now send_ok s) old = handlers s old
       \<and> (\<forall>code reason. Close old code reason \<in> set (log (connection cfg sock req now send_ok s))
            \<longrightarrow> Close old code reason \<in> set (log s))"
  using assms
  by (auto simp: connection_def ws_close_def Let_def truthy_def split: option.splits)

theorem duplicate_session_overwrites_witness:
  "truthy (extractToken (bearer_request ''u1''))
   \<and> extractUserId (example_node [221]) (the (extractToken (bearer_request ''u1''))) = Some ''u1''
   \<and> isUserOwnedByThisNode (example_node [221]) ''u1''
   \<and> clients (connection (example_node [221]) 1 (bearer_request ''u1'') 100 True
               (init_node (example_node [221]))) ''u1'' = Some 1
   \<and> clients
       (connection (example_node [221]) 2 (bearer_request ''u1'') 101 True
          (connection (example_node [221]) 1 (bearer_request ''u1'') 100 True
             (init_node (example_node [221])))) ''u1'' = Some 2
   \<and> handlers
       (connection (example_node [221]) 2 (bearer_request ''u1'') 101 True
          (connection (example_node [221]) 1 (bearer_request ''u1'') 100 True
             (init_node (example_node [221])))) 1 = Some (''u1'', 221)"
proof -
  let ?s1 = "connection (example_node [221]) 1 (bearer_request ''u1'') 100 True
               (init_node (example_node [221]))"
  have t: "truthy (extractToken (bearer_request ''u1''))"
    by (simp add: bearer_u1 truthy_def)
  have u: "extractUserId (example_node [221]) (the (extractToken (bearer_request ''u1''))) = Some ''u1''"
    by (simp add: bearer_u1 example_userId_u1)
  have ne: "''u1'' \<noteq> []" by simp
  have ow: "isUserOwnedByThisNode (example_node [221]) ''u1''"
    by (simp add: isUserOwnedByThisNode_def example_node_u1) (simp add: example_node_def)
  have c1: "clients ?s1 ''u1'' = Some 1"
    by (simp add: example_connect_u1 example_init)
  have h1: "handlers ?s1 1 = Some (''u1'', 221)"
    by (simp add: example_connect_u1 example_init)
  have d: "(1::nat) \<noteq> 2" by simp
  from duplicate_session_overwrites [OF t u ne ow c1 d, of 101 True] h1 t u ow c1
  show ?thesis by simp
qed

text \<open>
  Every sequence of bus messages acts on each set of \<open>onlineUsers\<close> by removing some user ids
  and adding some user ids, whatever the state is.
\<close>

lemma eachMessage_shape:
  "\<exists>D I. \<forall>s. onlineUsers (eachMessage cfg message s)
      = (\<lambda>v. map_option (\<lambda>users. (users - D v) \<union> I v) (onlineUsers s v))"
proof (cases message)
  case None
  show ?thesis
    by (rule exI [of _ "\<lambda>_. {}"], rule exI [of _ "\<lambda>_. {}"])
       (simp add: None eachMessage_def fun_eq_iff option.map_ident)
next
  case (Some p)
  let ?u = "ev_userId p"
  show ?thesis
  proof (cases "ev_nodeId p \<noteq> nodeId cfg \<and> isUserOwnedByThisNode cfg ?u
                \<and> (ev_action p = ''online'' \<or> ev_action p = ''offline'')")
    case False
    then show ?thesis
      by (intro exI [of _ "\<lambda>_. {}"])
         (auto simp: Some eachMessage_def fun_eq_iff option.map_ident Let_def split: option.splits)
  next
    case True
    then obtain v where v: "getUserVnode (node_ring cfg) ?u = Some v"
      by (auto dest: isUserOwned_vnode)
    show ?thesis
    proof (cases "ev_action p = ''online''")
      case on: True
      show ?thesis
        using True on v
        by (intro exI [of _ "\<lambda>_. {}"] exI [of _ "\<lambda>w. if w = v then {?u} else {}"])
           (auto simp: Some eachMessage_def fun_eq_iff Let_def option.map_ident split: option.splits)
    next
      case off: False
      show ?thesis
        using True off v
        by (intro exI [of _ "\<lambda>w. if w = v then {?u} else {}"] exI [of _ "\<lambda>_. {}"])
           (auto simp: Some eachMessage_def fun_eq_iff Let_def option.map_ident split: option.splits)
    qed
  qed
qed

lemma apply_events_shape:
  "\<exists>D I. \<forall>s. onlineUsers (apply_events cfg messages s)
      = (\<lambda>v. map_option (\<lambda>users. (users - D v) \<union> I v) (onlineUsers s v))"
proof (induction messages)
  case Nil
  show ?case
    by (intro exI [of _ "\<lambda>_. {}"]) (simp add: apply_events_def option.map_ident)
next
  case (Cons m ms)
  from Cons.IH obtain D2 I2 where
    2: "\<And>s. onlineUsers (apply_events cfg ms s)
          = (\<lambda>v. map_option (\<lambda>users. (users - D2 v) \<union> I2 v) (onlineUsers s v))"
    by blast
  from eachMessage_shape [of cfg m] obtain D1 I1 where
    1: "\<And>s. onlineUsers (eachMessage cfg m s)
          = (\<lambda>v. map_option (\<lambda>users. (users - D1 v) \<union> I1 v) (onlineUsers s v))"
    by blast
  have step: "apply_events cfg (m # ms) s = apply_events cfg ms (eachMessage cfg m s)" for s
    by (simp add: apply_events_def)
  show ?case
    by (rule exI [of _ "\<lambda>v. D1 v \<union> D2 v"], rule exI [of _ "\<lambda>v. (I1 v - D2 v) \<union> I2 v"])
       (auto simp: step 1 2 fun_eq_iff option.map_comp comp_def intro!: option.map_cong)
qed

lemma eachMessage_noop:
  assumes "getUserVnode (node_ring cfg) (ev_userId p) = Some v"
    and "onlineUsers s v = Some users"
    and "ev_action p = ''online'' \<and> ev_userId p \<in> users
       \<or> ev_action p = ''offline'' \<and> ev_userId p \<notin> users"
  shows "onlineUsers (eachMessage cfg (Some p) s) = onlineUsers s"
  using assms
  by (auto simp: eachMessage_def Let_def insert_absorb fun_eq_iff split: option.splits)

text \<open>
  Claim C6. Applying bus events to \<open>onlineUsers\<close> is idempotent at the set level: an online
  event for a user already in the set of its vnode, and an offline event for a user not in it,
  leave \<open>onlineUsers\<close> unchanged; and replaying a sequence of messages a second time yields the
  same \<open>onlineUsers\<close> as applying it once.
\<close>

theorem bus_events_idempotent:
  "(\<forall>p v users.
       getUserVnode (node_ring cfg) (ev_userId p) = Some v \<and> onlineUsers s v = Some users
       \<and> (ev_action p = ''online'' \<and> ev_userId p \<in> users
          \<or> ev_action p = ''offline'' \<and> ev_userId p \<notin> users)
       \<longrightarrow> onlineUsers (eachMessage cfg (Some p) s) = onlineUsers s)
   \<and> onlineUsers (apply_events cfg messages (apply_events cfg messages s))
       = onlineUsers (apply_events cfg messages s)"
proof -
  from apply_events_shape [of cfg messages] obtain D I where
    sh: "\<And>s. onlineUsers (apply_events cfg messages s)
          = (\<lambda>v. map_option (\<lambda>users. (users - D v) \<union> I v) (onlineUsers s v))"
    by blast
  have "onlineUsers (apply_events cfg messages (apply_events cfg messages s))
       = onlineUsers (apply_events cfg messages s)"
    by (auto simp: sh [of "apply_events cfg messages s"] sh [of s] fun_eq_iff option.map_comp comp_def
        intro!: option.map_cong)
  with eachMessage_noop [of cfg _ _ s] show ?thesis by blast
qed

theorem bus_events_idempotent_witness:
  "getUserVnode (node_ring (example_node [221])) ''u1'' = Some 221
   \<and> onlineUsers (connection (example_node [221]) 1 (bearer_request ''u1'') 100 True
                    (init_node (example_node [221]))) 221 = Some {''u1''}
   \<and> onlineUsers
       (eachMessage (example_node [221])
          (Some \<lparr>ev_userId = ''u1'', ev_action = ''online'', ev_timestamp = 5,
                 ev_nodeId = ''node-2''\<rparr>)
          (connection (example_node [221]) 1 (bearer_request ''u1'') 100 True
             (init_node (example_node [221]))))
     = onlineUsers (connection (example_node [221]) 1 (bearer_request ''u1'') 100 True
                      (init_node (example_node [221])))"
proof -
  let ?s = "connection (example_node [221]) 1 (bearer_request ''u1'') 100 True
              (init_node (example_node [221]))"
  let ?p = "\<lparr>ev_userId = ''u1'', ev_action = ''online'', ev_timestamp = 5, ev_nodeId = ''node-2''\<rparr>"
  have v: "getUserVnode (node_ring (example_node [221])) (ev_userId ?p) = Some 221"
    by (simp add: example_node_u1)
  have o: "onlineUsers ?s 221 = Some {''u1''}"
    by (simp add: example_connect_u1 example_init)
  have a: "ev_action ?p = ''online'' \<and> ev_userId ?p \<in> {''u1''}" by simp
  from bus_events_idempotent [of "example_node [221]" ?s "[]"] v o a
  have "onlineUsers (eachMessage (example_node [221]) (Some ?p) ?s) = onlineUsers ?s"
    by blast
  with v o show ?thesis by simp
qed

section \<open>Properties of the startup\<close>

text \<open>The property key of an integer determines the integer.\<close>

lemma of_char_dec_digit: "n < 10 \<Longrightarrow> (of_char (dec_digit n) :: nat) = 48 + n"
proof -
  assume "n < 10"
  then have "n \<in> {0, 1, 2, 3, 4, 5, 6, 7, 8, 9}"
    by auto
  then show ?thesis by (auto simp: dec_digit_def)
qed

lemma nat_of_decimal_snoc:
  "nat_of_decimal (s @ [c]) = 10 * nat_of_decimal s + ((of_char c :: nat) - 48)"
  by (simp add: nat_of_decimal_def)

lemma nat_of_decimal_String_nat: "nat_of_decimal (String_nat n) = n"
proof (induction n rule: String_nat.induct)
  case (1 n)
  show ?case
  proof (cases "n < 10")
    case True
    then show ?thesis
      by (simp add: String_nat.simps [of n] nat_of_decimal_def of_char_dec_digit)
  next
    case False
    have "n mod 10 < 10" by simp
    with False 1 show ?thesis
      by (simp add: String_nat.simps [of n] nat_of_decimal_snoc of_char_dec_digit)
  qed
qed

lemma String_nat_digits: "c \<in> set (String_nat n) \<Longrightarrow> is_digit c"
proof (induction n rule: String_nat.induct)
  case (1 n)
  have d: "is_digit (dec_digit m)" if "m < 10" for m
    using that by (simp add: is_digit_def of_char_dec_digit)
  show ?case
  proof (cases "n < 10")
    case True
    with 1 show ?thesis by (simp add: String_nat.simps [of n] d)
  next
    case False
    have "n mod 10 < 10" by simp
    with False 1 show ?thesis by (auto simp: String_nat.simps [of n] d)
  qed
qed

lemma js_key_inj: "js_key (Some i) = js_key (Some j) \<Longrightarrow> i = j"
proof -
  assume eq: "js_key (Some i) = js_key (Some j)"
  have minus: "CHR ''-'' # s \<noteq> String_nat n" for s n
  proof
    assume "CHR ''-'' # s = String_nat n"
    then have "CHR ''-'' \<in> set (String_nat n)" by (metis list.set_intros(1))
    then have "is_digit CHR ''-''" by (rule String_nat_digits)
    then show False by (simp add: is_digit_def)
  qed
  have inj: "String_nat m = String_nat n \<Longrightarrow> m = n" for m n
    by (metis nat_of_decimal_String_nat)
  show "i = j"
  proof (cases "i < 0")
    case True
    show ?thesis
    proof (cases "j < 0")
      case jn: True
      with True eq have "nat (- i) = nat (- j)" by (auto simp: js_key_def dest: inj)
      with True jn show ?thesis by simp
    next
      case False
      with True eq minus show ?thesis by (auto simp: js_key_def)
    qed
  next
    case False
    show ?thesis
    proof (cases "j < 0")
      case True
      with False eq minus [of "String_nat (nat (- j))" "nat i"] show ?thesis
        by (auto simp: js_key_def)
    next
      case jp: False
      with False eq have "nat i = nat j" by (auto simp: js_key_def dest: inj)
      with False jp show ?thesis by simp
    qed
  qed
qed

text \<open>The object that a loop of assignments builds, and what \<^verbatim>\<open>HMSET\<close> then stores.\<close>

lemma fold_put_other:
  "k \<notin> key ` set xs \<Longrightarrow>
   map_of (fold (\<lambda>x m. js_put (key x) (val x) m) xs m0) k = map_of m0 k"
  by (induction xs arbitrary: m0) auto

lemma fold_put_inj:
  "inj_on key (set xs) \<Longrightarrow> x \<in> set xs \<Longrightarrow>
   map_of (fold (\<lambda>x m. js_put (key x) (val x) m) xs m0) (key x) = Some (val x)"
proof (induction xs arbitrary: m0)
  case Nil
  then show ?case by simp
next
  case (Cons y ys)
  show ?case
  proof (cases "x \<in> set ys")
    case True
    with Cons show ?thesis by simp
  next
    case False
    with Cons.prems have x: "x = y" and "key x \<notin> key ` set ys" by (auto simp: inj_on_def)
    then show ?thesis by (simp add: fold_put_other)
  qed
qed

lemma distinct_js_order: "distinct (map fst al) \<Longrightarrow> distinct (map fst (js_order al))"
proof -
  assume d: "distinct (map fst al)"
  let ?ix = "filter (\<lambda>(k, v). is_index_key k) al"
  have "distinct (map fst ?ix)" using d by (rule distinct_map_filter)
  then have "distinct (map fst (sort_key (\<lambda>(k, v). nat_of_decimal k) ?ix))"
    by (simp add: distinct_map)
  moreover have "distinct (map fst (filter (\<lambda>(k, v). \<not> is_index_key k) al))"
    using d by (rule distinct_map_filter)
  ultimately show ?thesis by (auto simp: js_order_def)
qed

lemma distinct_fold_put:
  "distinct (map fst m0) \<Longrightarrow> distinct (map fst (fold (\<lambda>x m. js_put (key x) (val x) m) xs m0))"
  by (induction xs arbitrary: m0) (simp_all add: js_put_def distinct_js_order distinct_update)

lemma map_of_rev_distinct: "distinct (map fst l) \<Longrightarrow> map_of (rev l) = map_of l"
proof
  fix k
  assume d: "distinct (map fst l)"
  then have dr: "distinct (map fst (rev l))" by (simp add: rev_map [symmetric])
  show "map_of (rev l) k = map_of l k"
  proof (cases "map_of l k")
    case None
    then have "k \<notin> fst ` set l" by (simp add: map_of_eq_None_iff)
    then have "k \<notin> fst ` set (rev l)" by simp
    then have "map_of (rev l) k = None" by (rule iffD2 [OF map_of_eq_None_iff])
    with None show ?thesis by simp
  next
    case (Some v)
    with d have "(k, v) \<in> set (rev l)" by simp
    with dr Some show ?thesis by simp
  qed
qed

lemma map_of_hmset_fold_put:
  "map_of (hmset (fold (\<lambda>x m. js_put (key x) (val x) m) xs []) h)
     = map_of h ++ map_of (fold (\<lambda>x m. js_put (key x) (val x) m) xs [])"
  by (simp add: map_of_hmset map_of_rev_distinct distinct_fold_put)

text \<open>
  What a heartbeat writes: when the directory is reachable and \<open>onlineUsers\<close> holds a set for
  every assigned vnode, the node becomes the owner of every assigned vnode and the load of
  the vnode is the size of its set; the other fields stay. When the directory is not
  reachable, nothing is written.
\<close>

lemma heartbeat_writes:
  assumes "reachable d"
    and "list_all (\<lambda>vnodeId. onlineUsers s vnodeId \<noteq> None) (assignedVnodes cfg)"
  shows "v \<in> set (assignedVnodes cfg) \<Longrightarrow>
           map_of (owners (updateHeartbeat cfg s d)) (js_key (Some v)) = Some (nodeId cfg)"
    and "v \<in> set (assignedVnodes cfg) \<Longrightarrow>
           map_of (loads (updateHeartbeat cfg s d)) (js_key (Some v))
             = Some (String_nat (card (the (onlineUsers s v))))"
    and "k \<notin> (\<lambda>v. js_key (Some v)) ` set (assignedVnodes cfg) \<Longrightarrow>
           map_of (owners (updateHeartbeat cfg s d)) k = map_of (owners d) k
         \<and> map_of (loads (updateHeartbeat cfg s d)) k = map_of (loads d) k"
proof -
  let ?key = "\<lambda>v. js_key (Some v)"
  let ?vo = "fold (\<lambda>vnodeId m. js_put (?key vnodeId) (nodeId cfg) m) (assignedVnodes cfg) []"
  let ?vl = "fold (\<lambda>vnodeId m. js_put (?key vnodeId)
                 (String_nat (card (the (onlineUsers s vnodeId)))) m) (assignedVnodes cfg) []"
  have inj: "inj_on ?key (set (assignedVnodes cfg))"
    by (auto simp: inj_on_def dest: js_key_inj)
  have o: "map_of (owners (updateHeartbeat cfg s d)) = map_of (owners d) ++ map_of ?vo"
    using assms
    by (simp add: updateHeartbeat_def Let_def updateVnodeLoads_def updateVnodeOwners_def
        map_of_hmset_fold_put)
  have l: "map_of (loads (updateHeartbeat cfg s d)) = map_of (loads d) ++ map_of ?vl"
    using assms
    by (simp add: updateHeartbeat_def Let_def updateVnodeLoads_def updateVnodeOwners_def
        map_of_hmset_fold_put)
  show "map_of (owners (updateHeartbeat cfg s d)) (js_key (Some v)) = Some (nodeId cfg)"
    if "v \<in> set (assignedVnodes cfg)"
    using fold_put_inj [OF inj that, of "\<lambda>_. nodeId cfg" "[]"] by (simp add: o map_add_def)
  show "map_of (loads (updateHeartbeat cfg s d)) (js_key (Some v))
          = Some (String_nat (card (the (onlineUsers s v))))"
    if "v \<in> set (assignedVnodes cfg)"
    using fold_put_inj [OF inj that, of "\<lambda>v. String_nat (card (the (onlineUsers s v)))" "[]"]
    by (simp add: l map_add_def)
  show "map_of (owners (updateHeartbeat cfg s d)) k = map_of (owners d) k
      \<and> map_of (loads (updateHeartbeat cfg s d)) k = map_of (loads d) k"
    if "k \<notin> ?key ` set (assignedVnodes cfg)"
    using fold_put_other [OF that, of "\<lambda>_. nodeId cfg" "[]"]
      fold_put_other [OF that, of "\<lambda>v. String_nat (card (the (onlineUsers s v)))" "[]"]
    by (simp add: o l map_add_def)
qed

lemma heartbeat_unreachable: "\<not> reachable d \<Longrightarrow> updateHeartbeat cfg s d = d"
  by (simp add: updateHeartbeat_def Let_def)

lemma reachable_node_sets:
  "reachable_node cfg s \<Longrightarrow>
   list_all (\<lambda>vnodeId. onlineUsers s vnodeId \<noteq> None) (assignedVnodes cfg)"
  using reachable_node_inv [of cfg s] by (auto simp: node_inv_def list_all_iff)

lemma js_key_221: "js_key (Some 221) = ''221''"
  by (simp add: js_key_def String_nat.simps dec_digit_def)

lemma example_node_fields:
  "assignedVnodes (example_node vs) = vs" "nodeId (example_node vs) = ''node-1''"
  "node_vnodeCount (example_node vs) = 1024"
  by (simp_all add: example_node_def)

lemma example_heartbeat:
  "updateHeartbeat (example_node [221]) (init_node (example_node [221])) empty_directory
     = empty_directory\<lparr>owners := [(''221'', ''node-1'')], loads := [(''221'', ''0'')]\<rparr>"
proof -
  have put: "js_put ''221'' v [] = [(''221'', v)]" for v
    by (simp add: js_put_def js_order_def is_index_key_def is_digit_def nat_of_decimal_def)
  show ?thesis
    by (simp add: updateHeartbeat_def example_init example_node_fields js_key_221 put
        updateVnodeOwners_def updateVnodeLoads_def hmset_def empty_directory_def
        String_nat.simps dec_digit_def)
qed

text \<open>
  Claim C8, as stated: an initial heartbeat completes before the node begins accepting
  client connections. In the startup of the example node the fourth state is listening while
  no heartbeat has run and the directory is still empty; the heartbeat is the sixth step.
\<close>

theorem startup_counterexample:
  "map (\<lambda>q. (listening q, heartbeats q, owners (pdir q)))
     (start (example_node [221]) True True (fresh_process (example_node [221]) empty_directory))
   = [(False, 0, []), (False, 0, []), (False, 0, []), (True, 0, []), (True, 0, []),
      (True, 1, [(''221'', ''node-1'')]), (True, 1, [(''221'', ''node-1'')])]"
  by (simp add: start_def fresh_process_def Let_def example_heartbeat)
     (simp add: empty_directory_def)

text \<open>
  Claim C8, amended: in every startup of a node in which the producer and the consumer
  connect to Kafka, the node begins accepting client connections before the initial
  heartbeat, in the program order of \<^verbatim>\<open>start()\<close>: when \<^verbatim>\<open>server.listen\<close> has been called the
  heartbeat timer is not armed, no heartbeat has run and the directory is as before; then the
  heartbeat timer is armed; then the one initial heartbeat runs, which writes ownership and
  load for all assigned vnodes to the directory when the directory is reachable and leaves
  the directory unchanged when it is not; then the shutdown handlers are registered.
\<close>

theorem startup_listens_before_heartbeat:
  assumes "\<not> listening p" and "\<not> heartbeat_timer p" and "\<not> shutdown_handlers p"
    and "reachable_node cfg (pnode p)"
  shows "map (\<lambda>q. (listening q, heartbeat_timer q, heartbeats q, shutdown_handlers q, pdir q))
           (start cfg True True p)
         = [(False, False, heartbeats p, False, pdir p),
            (False, False, heartbeats p, False, pdir p),
            (False, False, heartbeats p, False, pdir p),
            (True, False, heartbeats p, False, pdir p),
            (True, True, heartbeats p, False, pdir p),
            (True, True, Suc (heartbeats p), False, updateHeartbeat cfg (pnode p) (pdir p)),
            (True, True, Suc (heartbeats p), True, updateHeartbeat cfg (pnode p) (pdir p))]
       \<and> (reachable (pdir p) \<longrightarrow>
            (\<forall>v \<in> set (assignedVnodes cfg).
                map_of (owners (updateHeartbeat cfg (pnode p) (pdir p))) (js_key (Some v))
                  = Some (nodeId cfg)
              \<and> map_of (loads (updateHeartbeat cfg (pnode p) (pdir p))) (js_key (Some v))
                  = Some (String_nat (card (the (onlineUsers (pnode p) v))))))
       \<and> (\<not> reachable (pdir p) \<longrightarrow> updateHeartbeat cfg (pnode p) (pdir p) = pdir p)"
proof -
  have order: "map (\<lambda>q. (listening q, heartbeat_timer q, heartbeats q, shutdown_handlers q, pdir q))
           (start cfg True True p)
         = [(False, False, heartbeats p, False, pdir p),
            (False, False, heartbeats p, False, pdir p),
            (False, False, heartbeats p, False, pdir p),
            (True, False, heartbeats p, False, pdir p),
            (True, True, heartbeats p, False, pdir p),
            (True, True, Suc (heartbeats p), False, updateHeartbeat cfg (pnode p) (pdir p)),
            (True, True, Suc (heartbeats p), True, updateHeartbeat cfg (pnode p) (pdir p))]"
    using assms(1-3) by (simp add: start_def Let_def)
  have sets: "list_all (\<lambda>vnodeId. onlineUsers (pnode p) vnodeId \<noteq> None) (assignedVnodes cfg)"
    using assms(4) by (rule reachable_node_sets)
  from order heartbeat_writes(1,2) [OF _ sets] heartbeat_unreachable [of "pdir p" cfg "pnode p"]
  show ?thesis by blast
qed

theorem startup_listens_before_heartbeat_witness:
  "\<not> listening (fresh_process (example_node [221]) empty_directory)
   \<and> \<not> heartbeat_timer (fresh_process (example_node [221]) empty_directory)
   \<and> \<not> shutdown_handlers (fresh_process (example_node [221]) empty_directory)
   \<and> reachable_node (example_node [221]) (pnode (fresh_process (example_node [221]) empty_directory))
   \<and> reachable (pdir (fresh_process (example_node [221]) empty_directory))
   \<and> 221 \<in> set (assignedVnodes (example_node [221]))
   \<and> map (\<lambda>q. (listening q, heartbeat_timer q, heartbeats q, shutdown_handlers q, pdir q))
        (start (example_node [221]) True True (fresh_process (example_node [221]) empty_directory))
      = [(False, False, 0, False, empty_directory),
         (False, False, 0, False, empty_directory),
         (False, False, 0, False, empty_directory),
         (True, False, 0, False, empty_directory),
         (True, True, 0, False, empty_directory),
         (True, True, 1, False,
          empty_directory\<lparr>owners := [(''221'', ''node-1'')], loads := [(''221'', ''0'')]\<rparr>),
         (True, True, 1, True,
          empty_directory\<lparr>owners := [(''221'', ''node-1'')], loads := [(''221'', ''0'')]\<rparr>)]
   \<and> map_of (owners (empty_directory\<lparr>owners := [(''221'', ''node-1'')],
                                        loads := [(''221'', ''0'')]\<rparr>)) (js_key (Some 221))
      = Some ''node-1''
   \<and> map_of (loads (empty_directory\<lparr>owners := [(''221'', ''node-1'')],
                                       loads := [(''221'', ''0'')]\<rparr>)) (js_key (Some 221))
      = Some ''0''
   \<and> \<not> reachable (pdir (fresh_process (example_node [221]) (empty_directory\<lparr>reachable := False\<rparr>)))
   \<and> updateHeartbeat (example_node [221]) (init_node (example_node [221]))
        (empty_directory\<lparr>reachable := False\<rparr>)
      = empty_directory\<lparr>reachable := False\<rparr>"
proof -
  let ?cfg = "example_node [221]"
  let ?p = "fresh_process ?cfg empty_directory"
  let ?u = "fresh_process ?cfg (empty_directory\<lparr>reachable := False\<rparr>)"
  let ?hb = "empty_directory\<lparr>owners := [(''221'', ''node-1'')], loads := [(''221'', ''0'')]\<rparr>"
  have f: "\<not> listening ?p" "\<not> heartbeat_timer ?p" "\<not> shutdown_handlers ?p"
    "\<not> listening ?u" "\<not> heartbeat_timer ?u" "\<not> shutdown_handlers ?u"
    by (simp_all add: fresh_process_def)
  have r: "reachable_node ?cfg (pnode ?p)" "reachable_node ?cfg (pnode ?u)"
    by (simp_all add: fresh_process_def reachable_node.start)
  have d: "reachable (pdir ?p)" "\<not> reachable (pdir ?u)"
    by (simp_all add: fresh_process_def empty_directory_def)
  have m: "221 \<in> set (assignedVnodes ?cfg)" by (simp add: example_node_fields)
  have 0: "heartbeats ?p = 0" "pdir ?p = empty_directory" "pnode ?p = init_node ?cfg"
    "pdir ?u = empty_directory\<lparr>reachable := False\<rparr>" "pnode ?u = init_node ?cfg"
    by (simp_all add: fresh_process_def)
  have c: "String_nat (card (the (onlineUsers (init_node ?cfg) 221))) = ''0''"
    by (simp add: example_init String_nat.simps dec_digit_def)
  note t = startup_listens_before_heartbeat [OF f(1,2,3) r(1), unfolded 0 example_heartbeat]
  note u = startup_listens_before_heartbeat [OF f(4,5,6) r(2), unfolded 0]
  from t have a: "map (\<lambda>q. (listening q, heartbeat_timer q, heartbeats q, shutdown_handlers q, pdir q))
        (start ?cfg True True ?p)
      = [(False, False, 0, False, empty_directory),
         (False, False, 0, False, empty_directory),
         (False, False, 0, False, empty_directory),
         (True, False, 0, False, empty_directory),
         (True, True, 0, False, empty_directory),
         (True, True, 1, False, ?hb),
         (True, True, 1, True, ?hb)]"
    by simp
  from t d(1) m have w: "map_of (owners ?hb) (js_key (Some 221)) = Some ''node-1''"
    "map_of (loads ?hb) (js_key (Some 221)) = Some ''0''"
    unfolding 0 c [symmetric] by (auto simp: example_node_fields)
  from u d(2) have b: "updateHeartbeat ?cfg (init_node ?cfg) (empty_directory\<lparr>reachable := False\<rparr>)
      = empty_directory\<lparr>reachable := False\<rparr>"
    unfolding 0 by blast
  from f r d m a w b show ?thesis by blast
qed

end
